theory Spec2Isabelle
  imports Complex_Main "HOL-Library.Product_Lexorder"
begin

section \<open>Python values used by the analytics engine\<close>

text \<open>
  The engine of \<open>main.py\<close> computes with Python integers (unbounded, modelled as \<open>int\<close>)
  and Python floats. Floats are idealised as real numbers: rounding of IEEE doubles is not
  part of this model. Exceptions are values of the type \<open>error\<close>; a computation that can raise
  returns \<open>error + 'a\<close>.
\<close>

datatype error = ZeroDivisionError | ValueError | OverflowError

definition bind_err :: "error + 'a \<Rightarrow> ('a \<Rightarrow> error + 'b) \<Rightarrow> error + 'b" where
  "bind_err r f = (case r of Inl e \<Rightarrow> Inl e | Inr x \<Rightarrow> f x)"

text \<open>Python's \<open>a / b\<close> on numbers and \<open>a // b\<close> on integers raise on a zero divisor.\<close>

definition truediv :: "real \<Rightarrow> real \<Rightarrow> error + real" where
  "truediv a b = (if b = 0 then Inl ZeroDivisionError else Inr (a / b))"

definition floordiv :: "int \<Rightarrow> int \<Rightarrow> error + int" where
  "floordiv a b = (if b = 0 then Inl ZeroDivisionError else Inr (a div b))"

text \<open>Python's \<open>int(x)\<close> on a float truncates towards zero.\<close>

definition int_trunc :: "real \<Rightarrow> int" where
  "int_trunc x = (if 0 \<le> x then \<lfloor>x\<rfloor> else \<lceil>x\<rceil>)"

section \<open>Dates and times\<close>

text \<open>
  A \<open>datetime\<close> object carries the calendar fields. All timestamps of the engine are in UTC
  (the data source writes \<open>Z\<close>, the clock is read with \<open>timezone.utc\<close>), and Python orders
  two such objects by the tuple of their fields.
\<close>

record datetime =
  year :: int
  month :: int
  day :: int
  hour :: int
  minute :: int
  second :: int
  microsecond :: int

definition dt_key :: "datetime \<Rightarrow> int \<times> int \<times> int \<times> int \<times> int \<times> int \<times> int" where
  "dt_key d = (year d, month d, day d, hour d, minute d, second d, microsecond d)"

definition dt_le :: "datetime \<Rightarrow> datetime \<Rightarrow> bool" where
  "dt_le a b \<longleftrightarrow> dt_key a \<le> dt_key b"

text \<open>The calendar arithmetic of the \<open>datetime\<close> module (proleptic Gregorian ordinals).\<close>

definition MINYEAR :: int where "MINYEAR = 1"
definition MAXYEAR :: int where "MAXYEAR = 9999"

definition DAYS_IN_MONTH :: "int list" where
  "DAYS_IN_MONTH = [-1, 31, 28, 31, 30, 31, 30, 31, 31, 30, 31, 30, 31]"

definition DAYS_BEFORE_MONTH :: "int list" where
  "DAYS_BEFORE_MONTH = [-1, 0, 31, 59, 90, 120, 151, 181, 212, 243, 273, 304, 334]"

definition is_leap :: "int \<Rightarrow> bool" where
  "is_leap y \<longleftrightarrow> y mod 4 = 0 \<and> (y mod 100 \<noteq> 0 \<or> y mod 400 = 0)"

definition days_before_year :: "int \<Rightarrow> int" where
  "days_before_year y' = (let y = y' - 1 in y * 365 + y div 4 - y div 100 + y div 400)"

definition days_in_month :: "int \<Rightarrow> int \<Rightarrow> int" where
  "days_in_month y m = (if m = 2 \<and> is_leap y then 29 else DAYS_IN_MONTH ! nat m)"

definition days_before_month :: "int \<Rightarrow> int \<Rightarrow> int" where
  "days_before_month y m = DAYS_BEFORE_MONTH ! nat m + (if m > 2 \<and> is_leap y then 1 else 0)"

definition ymd2ord :: "int \<Rightarrow> int \<Rightarrow> int \<Rightarrow> int" where
  "ymd2ord y m d = days_before_year y + days_before_month y m + d"

definition ord2ymd :: "int \<Rightarrow> int \<times> int \<times> int" where
  "ord2ymd n0 =
    (let n = n0 - 1;
         n400 = n div 146097; n = n mod 146097;
         y = n400 * 400 + 1;
         n100 = n div 36524; n = n mod 36524;
         n4 = n div 1461; n = n mod 1461;
         n1 = n div 365; n = n mod 365;
         y = y + (n100 * 100 + n4 * 4 + n1)
     in if n1 = 4 \<or> n100 = 4 then (y - 1, 12, 31)
        else
          let leapyear = (n1 = 3 \<and> (n4 \<noteq> 24 \<or> n100 = 3));
              m = (n + 50) div 32;
              preceding = DAYS_BEFORE_MONTH ! nat m + (if m > 2 \<and> leapyear then 1 else 0)
          in if preceding > n
             then (let m = m - 1;
                       preceding = preceding - (DAYS_IN_MONTH ! nat m + (if m = 2 \<and> leapyear then 1 else 0))
                   in (y, m, n - preceding + 1))
             else (y, m, n - preceding + 1))"

definition valid_date :: "int \<Rightarrow> int \<Rightarrow> int \<Rightarrow> bool" where
  "valid_date y m d \<longleftrightarrow>
     MINYEAR \<le> y \<and> y \<le> MAXYEAR \<and> 1 \<le> m \<and> m \<le> 12 \<and> 1 \<le> d \<and> d \<le> days_in_month y m"

definition valid_time :: "datetime \<Rightarrow> bool" where
  "valid_time t \<longleftrightarrow> 0 \<le> hour t \<and> hour t < 24 \<and> 0 \<le> minute t \<and> minute t < 60 \<and>
     0 \<le> second t \<and> second t < 60 \<and> 0 \<le> microsecond t \<and> microsecond t < 1000000"

definition valid_datetime :: "datetime \<Rightarrow> bool" where
  "valid_datetime t \<longleftrightarrow> valid_date (year t) (month t) (day t) \<and> valid_time t"

definition toordinal :: "datetime \<Rightarrow> int" where
  "toordinal t = ymd2ord (year t) (month t) (day t)"

text \<open>\<open>t.replace(year=y, month=m, day=d)\<close> checks the new date and raises \<open>ValueError\<close>.\<close>

definition replace_date :: "datetime \<Rightarrow> int \<Rightarrow> int \<Rightarrow> int \<Rightarrow> error + datetime" where
  "replace_date t y m d =
     (if valid_date y m d then Inr (t\<lparr>year := y, month := m, day := d\<rparr>) else Inl ValueError)"

text \<open>
  \<open>t - timedelta(days=i)\<close>: the date goes through its ordinal, the time of day is kept;
  an ordinal outside \<open>1 .. 3652059\<close> raises \<open>OverflowError\<close>.
\<close>

definition MAXORDINAL :: int where "MAXORDINAL = 3652059"

definition sub_days :: "datetime \<Rightarrow> int \<Rightarrow> error + datetime" where
  "sub_days t i =
     (let n = toordinal t - i
      in if 0 < n \<and> n \<le> MAXORDINAL
         then (case ord2ymd n of (y, m, d) \<Rightarrow> Inr (t\<lparr>year := y, month := m, day := d\<rparr>))
         else Inl OverflowError)"

text \<open>\<open>(a - b).days\<close>: the difference of two instants, floored to whole days.\<close>

definition micros_of_day :: "datetime \<Rightarrow> int" where
  "micros_of_day t = ((hour t * 60 + minute t) * 60 + second t) * 1000000 + microsecond t"

definition diff_days :: "datetime \<Rightarrow> datetime \<Rightarrow> int" where
  "diff_days a b =
     ((toordinal a * 86400000000 + micros_of_day a) - (toordinal b * 86400000000 + micros_of_day b))
       div 86400000000"

definition weekday :: "datetime \<Rightarrow> int" where
  "weekday t = (toordinal t + 6) mod 7"

definition same_date :: "datetime \<Rightarrow> datetime \<Rightarrow> bool" where
  "same_date a b \<longleftrightarrow> year a = year b \<and> month a = month b \<and> day a = day b"

section \<open>Inputs of the engine\<close>

text \<open>
  The repository document, with the keys the engine reads. \<open>created_at\<close> is the parsed
  creation timestamp. A star event carries \<open>starred_at\<close>; \<open>None\<close> stands for a timestamp that
  is absent or does not parse (both are skipped by the source). The source of randomness
  is a sequence \<open>rnd\<close> of the values that successive calls of \<open>random.random()\<close> return,
  read at a running index.
\<close>

record repo_data =
  stargazers_count :: nat
  forks_count :: nat
  created_at :: datetime

record star =
  starred_at :: "datetime option"

record contributor =
  login :: "string option"
  contributions :: "int option"

section \<open>Growth model\<close>

definition growth_factor :: "real \<Rightarrow> real" where
  "growth_factor progress =
     (if progress \<le> 0.2 then progress * 0.25
      else if progress \<le> 0.6 then
        (let early_stars = 0.05;
             growth_progress = (progress - 0.2) / 0.4;
             growth_in_phase = growth_progress powr 1.5 * 0.35
         in early_stars + growth_in_phase)
      else
        (let early_and_growth = 0.4;
             maturity_progress = (progress - 0.6) / 0.4;
             maturity_growth = maturity_progress * 0.6
         in early_and_growth + maturity_growth))"

section \<open>Monthly history\<close>

text \<open>
  One record of the monthly history. \<open>month_start\<close> is the loop's \<open>current_month\<close>, from
  which the source renders the three labels \<open>month\<close>, \<open>month_key\<close> and \<open>date\<close>.
\<close>

record monthly_record =
  month_start :: datetime
  stars_gained :: int
  forks_gained :: int
  total_stars_before :: int
  total_stars_after :: int
  total_forks_before :: int
  total_forks_after :: int

definition count_month_stars :: "star list \<Rightarrow> datetime \<Rightarrow> int" where
  "count_month_stars stargazers current_month =
     int (length (filter (\<lambda>s. case starred_at s of None \<Rightarrow> False
            | Some star_date \<Rightarrow> year star_date = year current_month \<and> month star_date = month current_month)
          stargazers))"

definition seasonal_months :: "int list" where
  "seasonal_months = [3, 4, 9, 10, 11]"

text \<open>
  The body of the \<open>while\<close> loop, in two parts. \<open>month_stars\<close> is the simulated number of
  stars of the month (the branch that overwrites the counted stars), with the index into
  the random sequence after it; \<open>month_body\<close> goes from the month, the running totals and
  the index to the record, the new running totals and the new index.
\<close>

definition month_stars ::
  "repo_data \<Rightarrow> datetime \<Rightarrow> (nat \<Rightarrow> real) \<Rightarrow> datetime \<Rightarrow> int \<Rightarrow> nat \<Rightarrow> error + (int \<times> nat)" where
  "month_stars repo current_date rnd current_month cumulative_stars k =
    (let created_date = created_at repo;
         months_since_creation =
           (year current_month - year created_date) * 12 + (month current_month - month created_date);
         total_months =
           max 1 ((year current_date - year created_date) * 12 + (month current_date - month created_date))
     in if total_months > 0 \<and> months_since_creation \<ge> 0 then
          bind_err (truediv (real_of_int months_since_creation) (real_of_int total_months))
            (\<lambda>progress.
              let total_stars = int (stargazers_count repo);
                  target_cumulative = int_trunc (real_of_int total_stars * min 1 (growth_factor progress));
                  stars_this_month = max 0 (target_cumulative - cumulative_stars)
              in if stars_this_month > 0 then
                   (let variation_percent = (rnd k - 0.5) * 0.6;
                        variation = int_trunc (real_of_int stars_this_month * variation_percent);
                        stars_this_month = max 0 (stars_this_month + variation);
                        month_num = month current_month
                    in if month_num \<in> set seasonal_months
                       then Inr (int_trunc (real_of_int stars_this_month * 1.1), Suc k)
                       else Inr (stars_this_month, Suc k))
                 else Inr (stars_this_month, k))
        else Inr (0, k))"

definition month_body ::
  "repo_data \<Rightarrow> datetime \<Rightarrow> (nat \<Rightarrow> real) \<Rightarrow> star list \<Rightarrow> datetime \<Rightarrow> int \<Rightarrow> int \<Rightarrow> nat
     \<Rightarrow> error + (monthly_record \<times> int \<times> int \<times> nat)" where
  "month_body repo current_date rnd stargazers current_month cumulative_stars cumulative_forks k =
    (let stars_this_month = count_month_stars stargazers current_month
     in bind_err (month_stars repo current_date rnd current_month cumulative_stars k)
          (\<lambda>(stars_this_month, k).
             let cumulative_stars = cumulative_stars + stars_this_month
             in bind_err (truediv (real (forks_count repo)) (real_of_int (max 1 (int (stargazers_count repo)))))
                  (\<lambda>fork_ratio.
                     let forks_this_month =
                           (if stars_this_month > 0
                            then int_trunc (real_of_int stars_this_month * fork_ratio) else 0);
                         cumulative_forks = cumulative_forks + forks_this_month
                     in Inr (\<lparr>month_start = current_month,
                              stars_gained = stars_this_month,
                              forks_gained = forks_this_month,
                              total_stars_before = cumulative_stars - stars_this_month,
                              total_stars_after = cumulative_stars,
                              total_forks_before = cumulative_forks - forks_this_month,
                              total_forks_after = cumulative_forks\<rparr>,
                             cumulative_stars, cumulative_forks, k))))"

definition next_month :: "datetime \<Rightarrow> error + datetime" where
  "next_month current_month =
     (if month current_month = 12
      then replace_date current_month (year current_month + 1) 1 (day current_month)
      else replace_date current_month (year current_month) (month current_month + 1) (day current_month))"

definition month_index :: "datetime \<Rightarrow> nat" where
  "month_index t = nat (12 * year t + month t)"

lemma next_month_index:
  assumes "next_month c = Inr c'"
  shows "month_index c < month_index c' \<and> month_index c' \<le> 120000"
  using assms
  by (auto simp: next_month_def replace_date_def valid_date_def MINYEAR_def MAXYEAR_def
        month_index_def split: if_splits)

function monthly_loop ::
  "repo_data \<Rightarrow> datetime \<Rightarrow> (nat \<Rightarrow> real) \<Rightarrow> star list \<Rightarrow> datetime \<Rightarrow> int \<Rightarrow> int \<Rightarrow> nat
     \<Rightarrow> monthly_record list \<Rightarrow> error + (monthly_record list \<times> nat)" where
  "monthly_loop repo current_date rnd stargazers current_month cumulative_stars cumulative_forks k
       monthly_history =
     (if dt_le current_month current_date then
        (case month_body repo current_date rnd stargazers current_month
                cumulative_stars cumulative_forks k of
           Inl e \<Rightarrow> Inl e
         | Inr (item, cumulative_stars', cumulative_forks', k') \<Rightarrow>
             (case next_month current_month of
                Inl e \<Rightarrow> Inl e
              | Inr current_month' \<Rightarrow>
                  monthly_loop repo current_date rnd stargazers current_month'
                    cumulative_stars' cumulative_forks' k' (monthly_history @ [item])))
      else Inr (monthly_history, k))"
  by pat_completeness auto
termination
  by (relation "measure (\<lambda>(repo, current_date, rnd, stargazers, current_month, cs, cf, k, h).
                  120000 - month_index current_month)")
     (auto dest!: next_month_index)

text \<open>
  The final adjustment: when the simulated total is off by more than 5 percent, the
  difference is spread over the last (at most three) months, and the running totals of
  every record are then recomputed.
\<close>

definition adjust_stars :: "int \<Rightarrow> nat \<Rightarrow> monthly_record list \<Rightarrow> monthly_record list" where
  "adjust_stars per_month_stars i monthly_history =
     (let idx = length monthly_history - (i + 1)
      in monthly_history[idx := (monthly_history ! idx)
           \<lparr>stars_gained := max 0 (stars_gained (monthly_history ! idx) + per_month_stars)\<rparr>])"

definition adjust_forks :: "int \<Rightarrow> nat \<Rightarrow> monthly_record list \<Rightarrow> monthly_record list" where
  "adjust_forks per_month_forks i monthly_history =
     (let idx = length monthly_history - (i + 1)
      in monthly_history[idx := (monthly_history ! idx)
           \<lparr>forks_gained := max 0 (forks_gained (monthly_history ! idx) + per_month_forks)\<rparr>])"

fun recalculate :: "int \<Rightarrow> int \<Rightarrow> monthly_record list \<Rightarrow> monthly_record list" where
  "recalculate running_stars running_forks [] = []"
| "recalculate running_stars running_forks (item # items) =
     item\<lparr>total_stars_before := running_stars,
          total_stars_after := running_stars + stars_gained item,
          total_forks_before := running_forks,
          total_forks_after := running_forks + forks_gained item\<rparr>
     # recalculate (running_stars + stars_gained item) (running_forks + forks_gained item) items"

definition reconcile_stars :: "repo_data \<Rightarrow> monthly_record list \<Rightarrow> error + monthly_record list" where
  "reconcile_stars repo monthly_history =
     (let total_simulated_stars = sum_list (map stars_gained monthly_history);
          actual_stars = int (stargazers_count repo);
          stars_diff = actual_stars - total_simulated_stars
      in if real_of_int \<bar>stars_diff\<bar> > real_of_int actual_stars * 0.05 then
           (let months_to_adjust = min 3 (int (length monthly_history))
            in bind_err (floordiv stars_diff months_to_adjust)
                 (\<lambda>per_month_stars.
                    Inr (fold (adjust_stars per_month_stars) [0..<nat months_to_adjust] monthly_history)))
         else Inr monthly_history)"

definition reconcile_forks :: "repo_data \<Rightarrow> monthly_record list \<Rightarrow> error + monthly_record list" where
  "reconcile_forks repo monthly_history =
     (let total_simulated_forks = sum_list (map forks_gained monthly_history);
          actual_forks = int (forks_count repo);
          forks_diff = actual_forks - total_simulated_forks
      in if real_of_int \<bar>forks_diff\<bar> > real_of_int actual_forks * 0.05 then
           (let months_to_adjust = min 3 (int (length monthly_history))
            in bind_err (floordiv forks_diff months_to_adjust)
                 (\<lambda>per_month_forks.
                    Inr (fold (adjust_forks per_month_forks) [0..<nat months_to_adjust] monthly_history)))
         else Inr monthly_history)"

definition final_adjustment :: "repo_data \<Rightarrow> monthly_record list \<Rightarrow> error + monthly_record list" where
  "final_adjustment repo monthly_history =
     (if monthly_history \<noteq> [] then
        bind_err (reconcile_stars repo monthly_history) (\<lambda>h1.
        bind_err (reconcile_forks repo h1) (\<lambda>h2.
        Inr (recalculate 0 0 h2)))
      else Inr monthly_history)"

text \<open>
  The monthly history of \<open>generate_real_analytics_data\<close>: the loop from the first day of
  the creation month to the current date, then the final adjustment. The result carries
  the index into the random sequence at which the rest of the function goes on.
\<close>

definition monthly_history_of ::
  "repo_data \<Rightarrow> datetime \<Rightarrow> (nat \<Rightarrow> real) \<Rightarrow> nat \<Rightarrow> star list \<Rightarrow> error + (monthly_record list \<times> nat)" where
  "monthly_history_of repo current_date rnd k stargazers =
     (let created_date = created_at repo
      in bind_err (replace_date created_date (year created_date) (month created_date) 1)
           (\<lambda>current_month.
              bind_err (monthly_loop repo current_date rnd stargazers current_month 0 0 k [])
                (\<lambda>(monthly_history, k').
                   bind_err (final_adjustment repo monthly_history)
                     (\<lambda>monthly_history. Inr (monthly_history, k')))))"

section \<open>Legacy monthly series\<close>

text \<open>
  An entry \<open>{"month": m, "value": v}\<close> or \<open>{"country": c, "value": v}\<close> of the output lists.
\<close>

record entry =
  label :: string
  val :: int

definition months :: "string list" where
  "months = [''Jan'', ''Feb'', ''Mar'', ''Apr'', ''May'', ''Jun'',
             ''Jul'', ''Aug'', ''Sep'', ''Oct'', ''Nov'', ''Dec'']"

definition count_stars_in :: "star list \<Rightarrow> nat \<Rightarrow> int" where
  "count_stars_in stargazers i =
     int (length (filter (\<lambda>s. case starred_at s of None \<Rightarrow> False
            | Some star_date \<Rightarrow> month star_date = int i + 1) stargazers))"

definition monthly_stars_list :: "repo_data \<Rightarrow> star list \<Rightarrow> entry list" where
  "monthly_stars_list repo stargazers =
     (let counted = map (count_stars_in stargazers) [0..<12];
          total_stargazers_processed = sum_list counted;
          total_stars = int (stargazers_count repo)
      in if real_of_int total_stargazers_processed < real_of_int total_stars * 0.1
         then map (\<lambda>i. let base_stars = max 1 (total_stars div 12);
                             growth = (real i + 1) / 12;
                             month_stars = int_trunc (real_of_int base_stars * (0.5 + growth))
                         in \<lparr>label = months ! i, val = month_stars\<rparr>) [0..<12]
         else map (\<lambda>i. \<lparr>label = months ! i, val = counted ! i\<rparr>) [0..<12])"

definition monthly_forks_list :: "repo_data \<Rightarrow> entry list" where
  "monthly_forks_list repo =
     (let total_forks = int (forks_count repo)
      in map (\<lambda>i. let base_forks = max 1 (total_forks div 12);
                       variation = max 0 (int_trunc (real_of_int base_forks * 0.3));
                       month_forks = base_forks + (int i mod 3) * variation
                   in \<lparr>label = months ! i, val = min month_forks total_forks\<rparr>) [0..<12])"

definition monthly_clones_list :: "repo_data \<Rightarrow> entry list" where
  "monthly_clones_list repo =
     (let base_clones = max 10 (int (stargazers_count repo) div 50)
      in map (\<lambda>i. let month_multiplier = 0.5 + (real i / 12) * 1.5;
                       seasonal_factor = 1 + 0.3 * \<bar>6 - real i\<bar> / 6;
                       month_clones = int_trunc (real_of_int base_clones * month_multiplier * seasonal_factor)
                   in \<lparr>label = months ! i, val = max 1 month_clones\<rparr>) [0..<12])"

section \<open>Strings\<close>

text \<open>
  Texts are ASCII strings. \<open>lower\<close> is \<open>str.lower\<close> and \<open>contains kw s\<close> is Python's
  \<open>kw in s\<close>.
\<close>

definition lower_char :: "char \<Rightarrow> char" where
  "lower_char c =
     (let n = (of_char c :: nat) in if 65 \<le> n \<and> n \<le> 90 then char_of (n + 32) else c)"

definition lower :: "string \<Rightarrow> string" where
  "lower s = map lower_char s"

fun starts_with :: "string \<Rightarrow> string \<Rightarrow> bool" where
  "starts_with [] s = True"
| "starts_with (k # ks) [] = False"
| "starts_with (k # ks) (c # cs) = (k = c \<and> starts_with ks cs)"

fun contains :: "string \<Rightarrow> string \<Rightarrow> bool" where
  "contains kw [] = (kw = [])"
| "contains kw (c # cs) = (starts_with kw (c # cs) \<or> contains kw cs)"

section \<open>Country distribution\<close>

text \<open>
  \<open>country_distribution\<close> is a dictionary; its items are read in insertion order, so it is
  a list of pairs, a key keeping the place of its first insertion.
\<close>

fun dict_get :: "(string \<times> int) list \<Rightarrow> string \<Rightarrow> int \<Rightarrow> int" where
  "dict_get [] k dflt = dflt"
| "dict_get ((k', v) # d) k dflt = (if k' = k then v else dict_get d k dflt)"

fun dict_set :: "(string \<times> int) list \<Rightarrow> string \<Rightarrow> int \<Rightarrow> (string \<times> int) list" where
  "dict_set [] k v = [(k, v)]"
| "dict_set ((k', v') # d) k v = (if k' = k then (k', v) # d else (k', v') # dict_set d k v)"

definition country_of_login :: "string \<Rightarrow> string" where
  "country_of_login lg =
     (if list_ex (\<lambda>kw. contains kw (lower lg)) [''de'', ''german''] then ''Germany''
      else if list_ex (\<lambda>kw. contains kw (lower lg)) [''uk'', ''brit''] then ''United Kingdom''
      else if list_ex (\<lambda>kw. contains kw (lower lg)) [''ca'', ''canadian''] then ''Canada''
      else if list_ex (\<lambda>kw. contains kw (lower lg)) [''fr'', ''french''] then ''France''
      else if list_ex (\<lambda>kw. contains kw (lower lg)) [''jp'', ''japan''] then ''Japan''
      else if list_ex (\<lambda>kw. contains kw (lower lg)) [''au'', ''aussie''] then ''Australia''
      else if list_ex (\<lambda>kw. contains kw (lower lg)) [''in'', ''indian''] then ''India''
      else if list_ex (\<lambda>kw. contains kw (lower lg)) [''br'', ''brazil''] then ''Brazil''
      else ''United States'')"

definition add_contributor :: "contributor \<Rightarrow> (string \<times> int) list \<Rightarrow> (string \<times> int) list" where
  "add_contributor c country_distribution =
     (let lg = (case login c of None \<Rightarrow> [] | Some l \<Rightarrow> l);
          country = country_of_login lg
      in dict_set country_distribution country
           (dict_get country_distribution country 0
              + (case contributions c of None \<Rightarrow> 1 | Some n \<Rightarrow> n)))"

definition countries_data :: "(string \<times> real) list" where
  "countries_data =
     [(''United States'', 0.35), (''Germany'', 0.12), (''United Kingdom'', 0.10),
      (''Canada'', 0.08), (''France'', 0.07), (''Japan'', 0.06), (''Australia'', 0.05),
      (''India'', 0.04), (''Brazil'', 0.04), (''Netherlands'', 0.03)]"

definition add_fallback :: "repo_data \<Rightarrow> string \<times> real \<Rightarrow> (string \<times> int) list \<Rightarrow> (string \<times> int) list" where
  "add_fallback repo cp country_distribution =
     (let stars_count = int_trunc (real (stargazers_count repo) * snd cp)
      in if stars_count > 0 then dict_set country_distribution (fst cp) stars_count
         else country_distribution)"

definition country_distribution_of :: "repo_data \<Rightarrow> contributor list \<Rightarrow> (string \<times> int) list" where
  "country_distribution_of repo contributors =
     (let country_distribution =
            (if contributors \<noteq> [] \<and> length contributors > 0
             then fold add_contributor (take 50 contributors) [] else [])
      in if country_distribution = []
         then fold (add_fallback repo) countries_data country_distribution
         else country_distribution)"

fun country_loop ::
  "repo_data \<Rightarrow> int \<Rightarrow> (string \<times> int) list \<Rightarrow> entry list \<times> entry list \<times> entry list
     \<Rightarrow> error + (entry list \<times> entry list \<times> entry list)" where
  "country_loop repo total_contributions [] acc = Inr acc"
| "country_loop repo total_contributions ((country, contribs) # items)
       (country_stars, country_forks, country_clones) =
     (if total_contributions > 0 then
        (case truediv (real_of_int contribs) (real_of_int total_contributions) of
           Inl e \<Rightarrow> Inl e
         | Inr star_ratio \<Rightarrow>
            (let stars_count = int_trunc (real (stargazers_count repo) * star_ratio);
                 forks_count' = int_trunc (real (forks_count repo) * star_ratio);
                 clones_count = contribs * 10
             in country_loop repo total_contributions items
                  (if stars_count > 0
                   then country_stars @ [\<lparr>label = country, val = stars_count\<rparr>] else country_stars,
                   if forks_count' > 0
                   then country_forks @ [\<lparr>label = country, val = forks_count'\<rparr>] else country_forks,
                   if clones_count > 0
                   then country_clones @ [\<lparr>label = country, val = clones_count\<rparr>] else country_clones)))
      else country_loop repo total_contributions items (country_stars, country_forks, country_clones))"

text \<open>
  \<open>xs.sort(key=lambda x: x["value"], reverse=True)\<close> is a stable sort, descending by value.
\<close>

definition sort_desc :: "entry list \<Rightarrow> entry list" where
  "sort_desc xs = sort_key (\<lambda>x. - val x) xs"

record countries =
  c_stars :: "entry list"
  c_forks :: "entry list"
  c_clones :: "entry list"

definition countries_of :: "repo_data \<Rightarrow> contributor list \<Rightarrow> error + countries" where
  "countries_of repo contributors =
     (let country_distribution = country_distribution_of repo contributors;
          total_contributions = sum_list (map snd country_distribution)
      in bind_err (country_loop repo total_contributions country_distribution ([], [], []))
           (\<lambda>(country_stars, country_forks, country_clones).
              Inr \<lparr>c_stars = take 8 (sort_desc country_stars),
                   c_forks = take 8 (sort_desc country_forks),
                   c_clones = take 8 (sort_desc country_clones)\<rparr>))"

section \<open>Daily window\<close>

record daily_record =
  date :: datetime
  dval :: int
  cumulative :: int

definition count_day_stars :: "star list \<Rightarrow> datetime \<Rightarrow> int" where
  "count_day_stars stargazers d =
     int (length (filter (\<lambda>s. case starred_at s of None \<Rightarrow> False
            | Some star_date \<Rightarrow> same_date star_date d) stargazers))"

text \<open>
  The body of the loop of \<open>generate_daily_analytics\<close>, for the day \<open>i\<close> days ago, in
  two parts. \<open>day_stars\<close> is the number of stars of the day (counted, or simulated when
  fewer than 10 star events are known), with the index into the random sequence after it;
  \<open>day_body\<close> appends the day's two records.
\<close>

definition day_stars ::
  "repo_data \<Rightarrow> datetime \<Rightarrow> (nat \<Rightarrow> real) \<Rightarrow> star list \<Rightarrow> int \<Rightarrow> datetime \<Rightarrow> nat
     \<Rightarrow> error + (int \<times> nat)" where
  "day_stars repo today rnd stargazers i d k =
    (let stars_count = count_day_stars stargazers d
     in if stargazers = [] \<or> length stargazers < 10 then
          (let repo_age_days = diff_days today (created_at repo);
               total_stars = int (stargazers_count repo)
           in if repo_age_days > 0 then
                bind_err (truediv (real_of_int total_stars) (real_of_int repo_age_days))
                  (\<lambda>lifetime_avg.
                     let days_ago = i;
                         recency_factor = 1.0 + real_of_int (30 - days_ago) * 0.02;
                         day_of_week = weekday d;
                         weekday_factor = (if day_of_week < 5 then 1.2 else 0.6);
                         random_factor = 0.7 + rnd k * 0.6;
                         stars_count =
                           max 0 (int_trunc (lifetime_avg * recency_factor * weekday_factor * random_factor));
                         max_daily = max 1 (total_stars div 20)
                     in Inr (min stars_count max_daily, Suc k))
              else Inr (0, k))
        else Inr (stars_count, k))"

definition day_body ::
  "repo_data \<Rightarrow> datetime \<Rightarrow> (nat \<Rightarrow> real) \<Rightarrow> star list \<Rightarrow> int
     \<Rightarrow> daily_record list \<times> daily_record list \<times> nat
     \<Rightarrow> error + (daily_record list \<times> daily_record list \<times> nat)" where
  "day_body repo today rnd stargazers i st =
    (case st of (daily_stars, daily_forks, k) \<Rightarrow>
     bind_err (sub_days today i) (\<lambda>d.
     bind_err (day_stars repo today rnd stargazers i d k)
       (\<lambda>(stars_count, k).
          bind_err (truediv (real (forks_count repo)) (real_of_int (max 1 (int (stargazers_count repo)))))
            (\<lambda>r.
               let fork_ratio = min 0.3 r;
                   forks_count' =
                     max 0 (int_trunc (real_of_int stars_count * fork_ratio * (0.8 + rnd k * 0.4)));
                   cumulative_stars = sum_list (map dval daily_stars) + stars_count;
                   cumulative_forks = sum_list (map dval daily_forks) + forks_count'
               in Inr (daily_stars @ [\<lparr>date = d, dval = stars_count, cumulative = cumulative_stars\<rparr>],
                       daily_forks @ [\<lparr>date = d, dval = forks_count', cumulative = cumulative_forks\<rparr>],
                       Suc k)))))"

fun daily_loop ::
  "repo_data \<Rightarrow> datetime \<Rightarrow> (nat \<Rightarrow> real) \<Rightarrow> star list \<Rightarrow> int list
     \<Rightarrow> daily_record list \<times> daily_record list \<times> nat
     \<Rightarrow> error + (daily_record list \<times> daily_record list \<times> nat)" where
  "daily_loop repo today rnd stargazers [] st = Inr st"
| "daily_loop repo today rnd stargazers (i # is) st =
     (case day_body repo today rnd stargazers i st of
        Inl e \<Rightarrow> Inl e
      | Inr st' \<Rightarrow> daily_loop repo today rnd stargazers is st')"

record daily =
  d_stars :: "daily_record list"
  d_forks :: "daily_record list"

text \<open>\<open>range(30, -1, -1)\<close> is the list 30, 29, ..., 0.\<close>

definition range_30_down :: "int list" where
  "range_30_down = map int (rev [0..<31])"

definition generate_daily_analytics ::
  "repo_data \<Rightarrow> datetime \<Rightarrow> (nat \<Rightarrow> real) \<Rightarrow> nat \<Rightarrow> star list \<Rightarrow> error + (daily \<times> nat)" where
  "generate_daily_analytics repo today rnd k stargazers =
     bind_err (daily_loop repo today rnd stargazers range_30_down ([], [], k))
       (\<lambda>(daily_stars, daily_forks, k'). Inr (\<lparr>d_stars = daily_stars, d_forks = daily_forks\<rparr>, k'))"

section \<open>The analytics bundle\<close>

record legacy_monthly =
  m_stars :: "entry list"
  m_forks :: "entry list"
  m_clones :: "entry list"

record analytics =
  monthly :: legacy_monthly
  countries :: countries
  daily :: daily
  history :: "monthly_record list"

text \<open>
  \<open>generate_real_analytics_data\<close>, with the fetched star events and contributors and the
  two clock readings (\<open>current_date\<close> in the function itself, \<open>today\<close> in
  \<open>generate_daily_analytics\<close>) as inputs.
\<close>

definition generate_real_analytics_data ::
  "repo_data \<Rightarrow> star list \<Rightarrow> contributor list \<Rightarrow> datetime \<Rightarrow> datetime \<Rightarrow> (nat \<Rightarrow> real)
     \<Rightarrow> error + analytics" where
  "generate_real_analytics_data repo stargazers contributors current_date today rnd =
     bind_err (monthly_history_of repo current_date rnd 0 stargazers) (\<lambda>(monthly_history, k).
     bind_err (countries_of repo contributors) (\<lambda>cs.
     bind_err (generate_daily_analytics repo today rnd k stargazers) (\<lambda>(daily_data, k').
     Inr \<lparr>monthly = \<lparr>m_stars = monthly_stars_list repo stargazers,
                     m_forks = monthly_forks_list repo,
                     m_clones = monthly_clones_list repo\<rparr>,
          countries = cs,
          daily = daily_data,
          history = monthly_history\<rparr>)))"

section \<open>Classifier\<close>

text \<open>
  The keys of the repository document that \<open>classify_repository\<close> reads. \<open>language\<close> is
  \<open>None\<close> when the key is missing, and otherwise the value found, which may be \<open>null\<close>;
  \<open>description\<close> is \<open>None\<close> when missing or \<open>null\<close>; \<open>fork\<close> is the truth value of the key.
\<close>

datatype pystr = PyNone | PyStr string

record repo_meta =
  name :: string
  description :: "string option"
  language :: "pystr option"
  fork :: bool

record classification =
  primary_language :: pystr
  rtype :: string
  framework :: string
  category :: string

definition any_in :: "string list \<Rightarrow> string \<Rightarrow> bool" where
  "any_in keywords s = list_ex (\<lambda>keyword. contains keyword s) keywords"

definition any_in2 :: "string list \<Rightarrow> string \<Rightarrow> string \<Rightarrow> bool" where
  "any_in2 keywords s t = list_ex (\<lambda>keyword. contains keyword s \<or> contains keyword t) keywords"

definition classify_repository :: "repo_meta \<Rightarrow> (string \<times> int) list \<Rightarrow> classification" where
  "classify_repository repo languages =
     (let descr = lower (case description repo of None \<Rightarrow> [] | Some d \<Rightarrow> d);
          nm = lower (name repo)
      in \<lparr>primary_language = (case language repo of None \<Rightarrow> PyStr ''Unknown'' | Some l \<Rightarrow> l),
          rtype =
            (if fork repo then ''Fork''
             else if any_in [''library'', ''package'', ''npm'', ''pip''] descr then ''Library''
             else if any_in [''template'', ''boilerplate'', ''starter''] descr then ''Template''
             else ''Project''),
          framework =
            (if any_in2 [''react'', ''nextjs'', ''next.js''] descr nm then ''React/Next.js''
             else if any_in2 [''vue'', ''vuejs'', ''nuxt''] descr nm then ''Vue.js''
             else if any_in2 [''angular''] descr nm then ''Angular''
             else if any_in2 [''django'', ''flask'', ''fastapi''] descr nm then ''Python Web Framework''
             else if any_in2 [''express'', ''node''] descr nm then ''Node.js''
             else ''Unknown''),
          category =
            (if any_in [''api'', ''backend'', ''server''] descr then ''Backend''
             else if any_in [''frontend'', ''ui'', ''component''] descr then ''Frontend''
             else if any_in [''mobile'', ''ios'', ''android''] descr then ''Mobile''
             else if any_in [''ml'', ''ai'', ''machine learning'', ''neural''] descr then ''AI/ML''
             else if any_in [''game'', ''gaming''] descr then ''Gaming''
             else if any_in [''tool'', ''cli'', ''utility''] descr then ''Tool/Utility''
             else ''Unknown'')\<rparr>)"

section \<open>Notions used in the statements\<close>

text \<open>
  The part of a timestamp below the month, as Python compares it, and the same part of the
  first day of a month at the time of day of a timestamp.
\<close>

definition rest_key :: "datetime \<Rightarrow> int \<times> int \<times> int \<times> int \<times> int" where
  "rest_key d = (day d, hour d, minute d, second d, microsecond d)"

definition first_of_month_key :: "datetime \<Rightarrow> int \<times> int \<times> int \<times> int \<times> int" where
  "first_of_month_key c = (1, hour c, minute c, second c, microsecond c)"

text \<open>
  A difference is spread evenly over the adjusted months of a series of gains when the
  number of adjusted months (at most three) divides it and no adjusted gain falls below
  zero.
\<close>

definition evenly_spread :: "int \<Rightarrow> int list \<Rightarrow> bool" where
  "evenly_spread diff gains \<longleftrightarrow>
     min 3 (int (length gains)) dvd diff \<and>
     (\<forall>g \<in> set (drop (length gains - 3) gains). 0 \<le> g + diff div min 3 (int (length gains)))"

text \<open>
  The month and day of a day of the year, as \<open>ord2ymd\<close> finds them, and two checks over
  all days of a year that are evaluated once: the month and day found add up to the day
  of the year, and the day of the year of a month and day leads back to them.
\<close>

definition yday2md :: "bool \<Rightarrow> int \<Rightarrow> int \<times> int" where
  "yday2md leapyear n =
     (let m = (n + 50) div 32;
          preceding = DAYS_BEFORE_MONTH ! nat m + (if m > 2 \<and> leapyear then 1 else 0)
      in if preceding > n
         then (let m = m - 1;
                   preceding = preceding - (DAYS_IN_MONTH ! nat m + (if m = 2 \<and> leapyear then 1 else 0))
               in (m, n - preceding + 1))
         else (m, n - preceding + 1))"

definition md_ok :: "bool \<Rightarrow> int \<Rightarrow> int \<Rightarrow> bool" where
  "md_ok leapyear m d \<longleftrightarrow>
     (let t = DAYS_BEFORE_MONTH ! nat m + (if m > 2 \<and> leapyear then 1 else 0) + d - 1
      in d \<le> (if m = 2 \<and> leapyear then 29 else DAYS_IN_MONTH ! nat m) \<longrightarrow>
         0 \<le> t \<and>
         (if t \<le> 364 then yday2md leapyear t = (m, d) else leapyear \<and> m = 12 \<and> d = 31 \<and> t = 365))"

definition yd_ok :: "bool \<Rightarrow> int \<Rightarrow> bool" where
  "yd_ok leapyear n \<longleftrightarrow>
     (case yday2md leapyear n of (m, d) \<Rightarrow>
        DAYS_BEFORE_MONTH ! nat m + (if m > 2 \<and> leapyear then 1 else 0) + d = n + 1)"

text \<open>
  The day \<open>i\<close> days before a timestamp, and the property of a daily series that every
  running value is the sum of the daily values up to its record.
\<close>

definition day_of :: "datetime \<Rightarrow> int \<Rightarrow> datetime" where
  "day_of t i = (case ord2ymd (toordinal t - i) of (y, m, d) \<Rightarrow> t\<lparr>year := y, month := m, day := d\<rparr>)"

definition running_ok :: "daily_record list \<Rightarrow> bool" where
  "running_ok xs \<longleftrightarrow> (\<forall>j < length xs. cumulative (xs ! j) = sum_list (map dval (take (Suc j) xs)))"

section \<open>Properties of the growth model\<close>

lemma growth_factor_early: "p \<le> 1/5 \<Longrightarrow> growth_factor p = p / 4"
  by (simp add: growth_factor_def)

lemma growth_factor_growth:
  "1/5 < p \<Longrightarrow> p \<le> 3/5 \<Longrightarrow> growth_factor p = 1/20 + 7 * ((p - 0.2) / 0.4) powr 1.5 / 20"
  by (simp add: growth_factor_def Let_def)

lemma growth_factor_maturity: "3/5 < p \<Longrightarrow> growth_factor p = 3 * p / 2 - 1 / 2"
  by (simp add: growth_factor_def Let_def field_simps)

lemma growth_factor_mono:
  assumes "0 \<le> p" "p \<le> q" "q \<le> 1"
  shows "growth_factor p \<le> growth_factor q"
proof -
  define X where "X = ((p - 0.2) / 0.4) powr 1.5"
  define Y where "Y = ((q - 0.2) / 0.4) powr 1.5"
  have Y0: "0 \<le> Y" by (simp add: Y_def)
  consider "q \<le> 1/5" | "p \<le> 1/5" "1/5 < q" "q \<le> 3/5" | "p \<le> 1/5" "3/5 < q"
    | "1/5 < p" "q \<le> 3/5" | "1/5 < p" "p \<le> 3/5" "3/5 < q" | "3/5 < p"
    by linarith
  then show ?thesis
  proof cases
    case 1
    then have "growth_factor p = p / 4" "growth_factor q = q / 4"
      using assms by (simp_all add: growth_factor_early)
    then show ?thesis using assms by linarith
  next
    case 2
    then have "growth_factor p = p / 4" "growth_factor q = 1/20 + 7 * Y / 20"
      unfolding Y_def by (simp_all only: growth_factor_early growth_factor_growth)
    then show ?thesis using 2 Y0 assms by linarith
  next
    case 3
    then have "growth_factor p = p / 4" "growth_factor q = 3 * q / 2 - 1 / 2"
      by (simp_all only: growth_factor_early growth_factor_maturity)
    then show ?thesis using 3 assms by linarith
  next
    case 4
    have "X \<le> Y" unfolding X_def Y_def
      using 4 assms by (intro powr_mono2) (simp_all add: divide_right_mono)
    moreover have "growth_factor p = 1/20 + 7 * X / 20" "growth_factor q = 1/20 + 7 * Y / 20"
      unfolding X_def Y_def using 4 assms by (simp_all only: growth_factor_growth)
    ultimately show ?thesis by linarith
  next
    case 5
    have "X \<le> 1" unfolding X_def
      using 5 by (intro powr_le1) simp_all
    moreover have "growth_factor p = 1/20 + 7 * X / 20" "growth_factor q = 3 * q / 2 - 1 / 2"
      unfolding X_def using 5 by (simp_all only: growth_factor_growth growth_factor_maturity)
    ultimately show ?thesis using 5 assms by linarith
  next
    case 6
    then have "growth_factor p = 3 * p / 2 - 1 / 2" "growth_factor q = 3 * q / 2 - 1 / 2"
      using assms by (simp_all only: growth_factor_maturity)
    then show ?thesis using assms by linarith
  qed
qed

lemma growth_factor_points:
  "growth_factor 0 = 0" "growth_factor 0.2 = 0.05" "growth_factor 0.6 = 0.40" "growth_factor 1 = 1"
  by (simp_all add: growth_factor_def)

text \<open>
  The curve as designed, over the real numbers: \<open>growth_factor\<close> is non-decreasing on the
  interval from 0 to 1, stays between 0 and 1 there, and takes the values 0 at 0, 0.05 at
  0.2, 0.40 at 0.6 and 1 at 1. This is a fact about exact arithmetic. The source computes
  the same expressions in IEEE double arithmetic, where \<open>(0.6 - 0.2) / 0.4\<close> is
  \<open>0.9999999999999999\<close> and the value at 0.6 comes out as \<open>0.3999999999999999\<close>; the
  rounding of doubles is not part of this model.
\<close>

lemma growth_factor_real_curve:
  "(\<forall>p q. 0 \<le> p \<and> p \<le> q \<and> q \<le> 1 \<longrightarrow> growth_factor p \<le> growth_factor q)
   \<and> (\<forall>p. 0 \<le> p \<and> p \<le> 1 \<longrightarrow> 0 \<le> growth_factor p \<and> growth_factor p \<le> 1)
   \<and> growth_factor 0 = 0 \<and> growth_factor 0.2 = 0.05 \<and> growth_factor 0.6 = 0.40
   \<and> growth_factor 1 = 1"
proof -
  have v: "growth_factor 0 = 0" "growth_factor 1 = 1"
    by (simp_all add: growth_factor_def)
  have b: "0 \<le> growth_factor p \<and> growth_factor p \<le> 1" if "0 \<le> p" "p \<le> 1" for p
    using growth_factor_mono [of 0 p] growth_factor_mono [of p 1] that v by simp
  show ?thesis
    using growth_factor_mono b growth_factor_points by blast
qed

section \<open>Properties of the classifier\<close>

lemma lower_react_library: "lower ''A React component library'' = ''a react component library''"
  by code_simp

lemma react_in_description: "contains ''react'' ''a react component library''"
  by code_simp

lemma library_in_description:
  "any_in [''library'', ''package'', ''npm'', ''pip''] ''a react component library''"
  by code_simp

lemma no_backend_in_description:
  "\<not> any_in [''api'', ''backend'', ''server''] ''a react component library''"
  by code_simp

lemma component_in_description:
  "any_in [''frontend'', ''ui'', ''component''] ''a react component library''"
  by code_simp

text \<open>
  Claim C8, as stated: for the description "A React component library" the category would
  be "Unknown". The classifier finds the keyword "component" and answers "Frontend".
\<close>

theorem classify_react_library_category_counterexample:
  "category (classify_repository
      \<lparr>name = ''ui-kit'', description = Some ''A React component library'',
       language = Some (PyStr ''TypeScript''), fork = False\<rparr> []) = ''Frontend''
   \<and> category (classify_repository
      \<lparr>name = ''ui-kit'', description = Some ''A React component library'',
       language = Some (PyStr ''TypeScript''), fork = False\<rparr> []) \<noteq> ''Unknown''"
  by code_simp

text \<open>
  Claim C8, amended. The classification is a function of the repository document alone (the
  languages argument is not read), and for every repository whose description is
  "A React component library" the framework is "React/Next.js", the category is "Frontend"
  (the keyword "component" is present) and the type is "Library" unless the repository is
  a fork, in which case it is "Fork".
\<close>

theorem classify_react_library:
  "classify_repository (r\<lparr>description := Some ''A React component library''\<rparr>) languages =
     \<lparr>primary_language = (case language r of None \<Rightarrow> PyStr ''Unknown'' | Some l \<Rightarrow> l),
      rtype = (if fork r then ''Fork'' else ''Library''),
      framework = ''React/Next.js'',
      category = ''Frontend''\<rparr>
   \<and> classify_repository r languages = classify_repository r languages'"
  by (simp add: classify_repository_def lower_react_library react_in_description
      library_in_description no_backend_in_description component_in_description any_in2_def)

theorem classify_react_library_witness:
  "classify_repository
      \<lparr>name = ''ui-kit'', description = Some ''A React component library'',
       language = Some (PyStr ''TypeScript''), fork = False\<rparr> [(''TypeScript'', 1200)] =
     \<lparr>primary_language = PyStr ''TypeScript'', rtype = ''Library'',
      framework = ''React/Next.js'', category = ''Frontend''\<rparr>"
  using classify_react_library
    [of "\<lparr>name = ''ui-kit'', description = None, language = Some (PyStr ''TypeScript''),
          fork = False\<rparr>" "[(''TypeScript'', 1200)]" "[]"]
  by simp

section \<open>Facts about the monthly loop\<close>

lemma bind_err_simps [simp]:
  "bind_err (Inr x) f = f x" "bind_err (Inl e) f = Inl e"
  by (simp_all add: bind_err_def)

declare monthly_loop.simps [simp del]

lemma dt_key_rest: "dt_key a = (year a, month a, rest_key a)"
  by (simp add: dt_key_def rest_key_def)

lemma dt_le_iff:
  "dt_le a b \<longleftrightarrow> year a < year b \<or> year a \<le> year b \<and>
     (month a < month b \<or> month a \<le> month b \<and> rest_key a \<le> rest_key b)"
  by (simp add: dt_le_def dt_key_rest)

lemma max_one_nonzero [simp]: "real_of_int (max 1 x) \<noteq> 0"
  by (simp add: max_def)

lemma month_stars_Inr:
  "\<exists>s k'. month_stars repo current_date rnd current_month cs k = Inr (s, k')"
  by (simp add: month_stars_def Let_def truediv_def)

lemma month_body_Inr:
  "\<exists>item k'. month_body repo current_date rnd stargazers current_month cs cf k =
       Inr (item, cs + stars_gained item, cf + forks_gained item, k')
     \<and> month_start item = current_month"
proof -
  obtain s k' where "month_stars repo current_date rnd current_month cs k = Inr (s, k')"
    using month_stars_Inr by blast
  then show ?thesis
    by (simp add: month_body_def Let_def truediv_def)
qed

lemma month_body_stargazers:
  "month_body repo current_date rnd stargazers current_month cs cf k =
   month_body repo current_date rnd stargazers' current_month cs cf k"
  by (simp add: month_body_def Let_def)

lemma monthly_loop_stargazers:
  "monthly_loop repo current_date rnd stargazers current_month cs cf k h =
   monthly_loop repo current_date rnd stargazers' current_month cs cf k h"
proof (induction repo current_date rnd stargazers current_month cs cf k h rule: monthly_loop.induct)
  case (1 repo current_date rnd stargazers current_month cs cf k h)
  show ?case
    apply (subst monthly_loop.simps)
    apply (subst (2) monthly_loop.simps)
    using 1 month_body_stargazers [of repo current_date rnd stargazers current_month cs cf k stargazers']
    by (auto split: sum.splits prod.splits)
qed

lemma days_in_month_ge: "1 \<le> m \<Longrightarrow> m \<le> 12 \<Longrightarrow> 28 \<le> days_in_month y m"
proof -
  assume "1 \<le> m" "m \<le> 12"
  then consider "m = 1" | "m = 2" | "m = 3" | "m = 4" | "m = 5" | "m = 6" | "m = 7" | "m = 8"
    | "m = 9" | "m = 10" | "m = 11" | "m = 12" by atomize_elim arith
  then show ?thesis
    by cases (simp_all add: days_in_month_def DAYS_IN_MONTH_def)
qed

lemma next_month_Inr:
  assumes "day c = 1" "1 \<le> month c" "month c \<le> 12" "1 \<le> year c" "year c < 9999"
  shows "\<exists>c'. next_month c = Inr c' \<and> day c' = 1 \<and> 1 \<le> month c' \<and> month c' \<le> 12 \<and> 1 \<le> year c'
     \<and> 12 * year c' + month c' = 12 * year c + month c + 1 \<and> rest_key c' = rest_key c"
proof (cases "month c = 12")
  case True
  have "valid_date (year c + 1) 1 1"
    using assms days_in_month_ge [of 1 "year c + 1"]
    by (simp add: valid_date_def MINYEAR_def MAXYEAR_def)
  then show ?thesis using True assms
    by (simp add: next_month_def replace_date_def rest_key_def)
next
  case False
  have "valid_date (year c) (month c + 1) 1"
    using assms False days_in_month_ge [of "month c + 1" "year c"]
    by (simp add: valid_date_def MINYEAR_def MAXYEAR_def)
  then show ?thesis using False assms
    by (simp add: next_month_def replace_date_def rest_key_def)
qed

text \<open>
  The loop returns, and the number of records it adds is the number of months from the
  loop's month to the month of the current date, the last of them counted only when the
  first day of that month, at the creation's time of day, is not after the current date.
\<close>

lemma monthly_loop_total:
  assumes "day c = 1" "1 \<le> month c" "month c \<le> 12" "1 \<le> year c"
    and "year now < 9999" "1 \<le> month now" "month now \<le> 12"
  shows "\<exists>h' k'. monthly_loop repo now rnd sg c cs cf k h = Inr (h @ h', k')
     \<and> int (length h') = max 0 (12 * year now + month now - (12 * year c + month c)
          + (if rest_key c \<le> rest_key now then 1 else 0))
     \<and> (dt_le c now \<longrightarrow> h' \<noteq> [])"
  using assms
proof (induction repo now rnd sg c cs cf k h rule: monthly_loop.induct)
  case (1 repo now rnd sg c cs cf k h)
  show ?case
  proof (cases "dt_le c now")
    case False
    then have "monthly_loop repo now rnd sg c cs cf k h = Inr (h, k)"
      by (subst monthly_loop.simps) simp
    moreover have "12 * year now + month now - (12 * year c + month c)
          + (if rest_key c \<le> rest_key now then 1 else 0) \<le> 0"
      using False "1.prems" by (auto simp: dt_le_iff)
    ultimately show ?thesis using False by simp
  next
    case True
    obtain item k' where body: "month_body repo now rnd sg c cs cf k =
        Inr (item, cs + stars_gained item, cf + forks_gained item, k')"
      using month_body_Inr by blast
    have yc: "year c < 9999" using True "1.prems" by (auto simp: dt_le_iff)
    obtain c' where nm: "next_month c = Inr c'" "day c' = 1" "1 \<le> month c'" "month c' \<le> 12"
      "1 \<le> year c'" "12 * year c' + month c' = 12 * year c + month c + 1" "rest_key c' = rest_key c"
      using next_month_Inr [OF "1.prems"(1-4) yc] by blast
    from "1.IH" [OF True body refl refl refl nm(1) nm(2-5) "1.prems"(5-7)]
    obtain h' k'' where rec: "monthly_loop repo now rnd sg c' (cs + stars_gained item)
        (cf + forks_gained item) k' (h @ [item]) = Inr ((h @ [item]) @ h', k'')"
      "int (length h') = max 0 (12 * year now + month now - (12 * year c' + month c')
          + (if rest_key c' \<le> rest_key now then 1 else 0))"
      by blast
    have eq: "monthly_loop repo now rnd sg c cs cf k h = Inr (h @ (item # h'), k'')"
      using True body nm(1) rec(1) by (subst monthly_loop.simps) simp
    have "0 \<le> 12 * year now + month now - (12 * year c + month c)
          + (if rest_key c \<le> rest_key now then 1 else 0) - 1"
      using True "1.prems" by (auto simp: dt_le_iff)
    then have "int (length (item # h')) = max 0 (12 * year now + month now - (12 * year c + month c)
          + (if rest_key c \<le> rest_key now then 1 else 0))"
      using rec(2) nm(6,7) by simp
    with eq show ?thesis by blast
  qed
qed

section \<open>Facts about the final adjustment\<close>

lemma fold_update_last:
  "k \<le> length xs \<Longrightarrow>
   fold (\<lambda>i ys. ys[length ys - (i + 1) := upd (ys ! (length ys - (i + 1)))]) [0..<k] xs =
     take (length xs - k) xs @ map upd (drop (length xs - k) xs)"
proof (induction k)
  case 0
  then show ?case by simp
next
  case (Suc k)
  let ?n = "length xs"
  let ?ys = "take (?n - k) xs @ map upd (drop (?n - k) xs)"
  have len: "length ?ys = ?n" by simp
  have k: "k < ?n" using Suc.prems by simp
  have lt: "?n - (k + 1) < ?n - k" using k by arith
  have at: "?ys ! (?n - (k + 1)) = xs ! (?n - (k + 1))"
    using lt by (simp add: nth_append)
  have "fold (\<lambda>i ys. ys[length ys - (i + 1) := upd (ys ! (length ys - (i + 1)))]) [0..<Suc k] xs
        = ?ys[?n - (k + 1) := upd (xs ! (?n - (k + 1)))]"
    using Suc.IH k at by (simp del: take_append drop_append add: len)
  also have "\<dots> = take (?n - Suc k) xs @ map upd (drop (?n - Suc k) xs)"
  proof (rule nth_equalityI)
    show "length (?ys[?n - (k + 1) := upd (xs ! (?n - (k + 1)))]) =
          length (take (?n - Suc k) xs @ map upd (drop (?n - Suc k) xs))"
      by simp
  next
    fix i assume "i < length (?ys[?n - (k + 1) := upd (xs ! (?n - (k + 1)))])"
    then have i: "i < ?n" by simp
    show "?ys[?n - (k + 1) := upd (xs ! (?n - (k + 1)))] ! i =
          (take (?n - Suc k) xs @ map upd (drop (?n - Suc k) xs)) ! i"
      using i k by (auto simp: nth_append nth_list_update)
  qed
  finally show ?case .
qed

lemma sum_list_map_add_const:
  "sum_list (map (\<lambda>r. f r + (p::int)) ys) = sum_list (map f ys) + p * int (length ys)"
  by (induction ys) (simp_all add: algebra_simps)

lemma adjust_stars_fold:
  assumes "k \<le> length h"
  shows "fold (adjust_stars p) [0..<k] h =
     take (length h - k) h @
     map (\<lambda>r. r\<lparr>stars_gained := max 0 (stars_gained r + p)\<rparr>) (drop (length h - k) h)"
proof -
  have "adjust_stars p = (\<lambda>i ys. ys[length ys - (i + 1) :=
          (\<lambda>r. r\<lparr>stars_gained := max 0 (stars_gained r + p)\<rparr>) (ys ! (length ys - (i + 1)))])"
    by (simp add: adjust_stars_def Let_def fun_eq_iff)
  then show ?thesis
    using fold_update_last [OF assms, of "\<lambda>r. r\<lparr>stars_gained := max 0 (stars_gained r + p)\<rparr>"]
    by simp
qed

lemma adjust_stars_sum:
  assumes "k \<le> length h" and "\<forall>r \<in> set (drop (length h - k) h). 0 \<le> stars_gained r + p"
  shows "sum_list (map stars_gained (fold (adjust_stars p) [0..<k] h)) =
     sum_list (map stars_gained h) + p * int k"
proof -
  let ?a = "take (length h - k) h" and ?b = "drop (length h - k) h"
  have m: "map stars_gained (map (\<lambda>r. r\<lparr>stars_gained := max 0 (stars_gained r + p)\<rparr>) ?b)
        = map (\<lambda>r. stars_gained r + p) ?b"
    using assms(2) by (simp add: max_def)
  have "sum_list (map stars_gained (fold (adjust_stars p) [0..<k] h)) =
      sum_list (map stars_gained ?a) + sum_list (map (\<lambda>r. stars_gained r + p) ?b)"
    unfolding adjust_stars_fold [OF assms(1)] map_append sum_list_append m ..
  then have 1: "sum_list (map stars_gained (fold (adjust_stars p) [0..<k] h)) =
      sum_list (map stars_gained ?a) + (sum_list (map stars_gained ?b) + p * int (length ?b))"
    by (simp only: sum_list_map_add_const)
  have 2: "sum_list (map stars_gained ?a) + sum_list (map stars_gained ?b) = sum_list (map stars_gained h)"
    by (metis append_take_drop_id map_append sum_list_append)
  have 3: "length ?b = k" using assms(1) by simp
  show ?thesis using 1 2 unfolding 3 by linarith
qed

lemma adjust_stars_keeps:
  assumes "k \<le> length h"
  shows "length (fold (adjust_stars p) [0..<k] h) = length h"
    and "map forks_gained (fold (adjust_stars p) [0..<k] h) = map forks_gained h"
    and "map month_start (fold (adjust_stars p) [0..<k] h) = map month_start h"
proof -
  show "length (fold (adjust_stars p) [0..<k] h) = length h"
    by (simp add: adjust_stars_fold [OF assms])
  have "map forks_gained (fold (adjust_stars p) [0..<k] h) =
      map forks_gained (take (length h - k) h) @ map forks_gained (drop (length h - k) h)"
    by (simp add: adjust_stars_fold [OF assms] comp_def)
  then show "map forks_gained (fold (adjust_stars p) [0..<k] h) = map forks_gained h"
    by (metis append_take_drop_id map_append)
  have "map month_start (fold (adjust_stars p) [0..<k] h) =
      map month_start (take (length h - k) h) @ map month_start (drop (length h - k) h)"
    by (simp add: adjust_stars_fold [OF assms] comp_def)
  then show "map month_start (fold (adjust_stars p) [0..<k] h) = map month_start h"
    by (metis append_take_drop_id map_append)
qed

lemma adjust_forks_fold:
  assumes "k \<le> length h"
  shows "fold (adjust_forks p) [0..<k] h =
     take (length h - k) h @
     map (\<lambda>r. r\<lparr>forks_gained := max 0 (forks_gained r + p)\<rparr>) (drop (length h - k) h)"
proof -
  have "adjust_forks p = (\<lambda>i ys. ys[length ys - (i + 1) :=
          (\<lambda>r. r\<lparr>forks_gained := max 0 (forks_gained r + p)\<rparr>) (ys ! (length ys - (i + 1)))])"
    by (simp add: adjust_forks_def Let_def fun_eq_iff)
  then show ?thesis
    using fold_update_last [OF assms, of "\<lambda>r. r\<lparr>forks_gained := max 0 (forks_gained r + p)\<rparr>"]
    by simp
qed

lemma adjust_forks_sum:
  assumes "k \<le> length h" and "\<forall>r \<in> set (drop (length h - k) h). 0 \<le> forks_gained r + p"
  shows "sum_list (map forks_gained (fold (adjust_forks p) [0..<k] h)) =
     sum_list (map forks_gained h) + p * int k"
proof -
  let ?a = "take (length h - k) h" and ?b = "drop (length h - k) h"
  have m: "map forks_gained (map (\<lambda>r. r\<lparr>forks_gained := max 0 (forks_gained r + p)\<rparr>) ?b)
        = map (\<lambda>r. forks_gained r + p) ?b"
    using assms(2) by (simp add: max_def)
  have "sum_list (map forks_gained (fold (adjust_forks p) [0..<k] h)) =
      sum_list (map forks_gained ?a) + sum_list (map (\<lambda>r. forks_gained r + p) ?b)"
    unfolding adjust_forks_fold [OF assms(1)] map_append sum_list_append m ..
  then have 1: "sum_list (map forks_gained (fold (adjust_forks p) [0..<k] h)) =
      sum_list (map forks_gained ?a) + (sum_list (map forks_gained ?b) + p * int (length ?b))"
    by (simp only: sum_list_map_add_const)
  have 2: "sum_list (map forks_gained ?a) + sum_list (map forks_gained ?b) = sum_list (map forks_gained h)"
    by (metis append_take_drop_id map_append sum_list_append)
  have 3: "length ?b = k" using assms(1) by simp
  show ?thesis using 1 2 unfolding 3 by linarith
qed

lemma adjust_forks_keeps:
  assumes "k \<le> length h"
  shows "length (fold (adjust_forks p) [0..<k] h) = length h"
    and "map stars_gained (fold (adjust_forks p) [0..<k] h) = map stars_gained h"
    and "map month_start (fold (adjust_forks p) [0..<k] h) = map month_start h"
proof -
  show "length (fold (adjust_forks p) [0..<k] h) = length h"
    by (simp add: adjust_forks_fold [OF assms])
  have "map stars_gained (fold (adjust_forks p) [0..<k] h) =
      map stars_gained (take (length h - k) h) @ map stars_gained (drop (length h - k) h)"
    by (simp add: adjust_forks_fold [OF assms] comp_def)
  then show "map stars_gained (fold (adjust_forks p) [0..<k] h) = map stars_gained h"
    by (metis append_take_drop_id map_append)
  have "map month_start (fold (adjust_forks p) [0..<k] h) =
      map month_start (take (length h - k) h) @ map month_start (drop (length h - k) h)"
    by (simp add: adjust_forks_fold [OF assms] comp_def)
  then show "map month_start (fold (adjust_forks p) [0..<k] h) = map month_start h"
    by (metis append_take_drop_id map_append)
qed

lemma recalculate_length [simp]: "length (recalculate a b xs) = length xs"
  by (induction xs arbitrary: a b) simp_all

lemma recalculate_gained [simp]:
  "map stars_gained (recalculate a b xs) = map stars_gained xs"
  "map forks_gained (recalculate a b xs) = map forks_gained xs"
  "map month_start (recalculate a b xs) = map month_start xs"
  by (induction xs arbitrary: a b) simp_all

lemma recalculate_consistent:
  "r \<in> set (recalculate a b xs) \<Longrightarrow>
     total_stars_after r = total_stars_before r + stars_gained r \<and>
     total_forks_after r = total_forks_before r + forks_gained r"
  by (induction xs arbitrary: a b) auto

lemma recalculate_last:
  "xs \<noteq> [] \<Longrightarrow>
     total_stars_after (last (recalculate a b xs)) = a + sum_list (map stars_gained xs) \<and>
     total_forks_after (last (recalculate a b xs)) = b + sum_list (map forks_gained xs)"
proof (induction xs arbitrary: a b)
  case Nil
  then show ?case by simp
next
  case (Cons x xs)
  show ?case
  proof (cases "xs = []")
    case True
    then show ?thesis by simp
  next
    case False
    have "recalculate (a + stars_gained x) (b + forks_gained x) xs \<noteq> []"
      using False by (cases xs) simp_all
    then show ?thesis using Cons.IH [OF False, of "a + stars_gained x" "b + forks_gained x"] False
      by simp
  qed
qed

lemma months_to_adjust_bounds:
  "h \<noteq> [] \<Longrightarrow> min 3 (int (length h)) \<noteq> 0 \<and> nat (min 3 (int (length h))) \<le> length h"
  by (cases h) auto

lemma reconcile_stars_Inr:
  assumes "h \<noteq> []"
  shows "\<exists>h1. reconcile_stars repo h = Inr h1 \<and> length h1 = length h
     \<and> map forks_gained h1 = map forks_gained h \<and> map month_start h1 = map month_start h"
  using months_to_adjust_bounds [OF assms]
  by (auto simp: reconcile_stars_def Let_def floordiv_def adjust_stars_keeps)

lemma reconcile_forks_Inr:
  assumes "h \<noteq> []"
  shows "\<exists>h1. reconcile_forks repo h = Inr h1 \<and> length h1 = length h
     \<and> map stars_gained h1 = map stars_gained h \<and> map month_start h1 = map month_start h"
  using months_to_adjust_bounds [OF assms]
  by (auto simp: reconcile_forks_def Let_def floordiv_def adjust_forks_keeps)

lemma reconcile_stars_within:
  assumes "real_of_int \<bar>int (stargazers_count repo) - sum_list (map stars_gained h)\<bar>
             \<le> real (stargazers_count repo) * 0.05"
  shows "reconcile_stars repo h = Inr h"
  using assms by (simp add: reconcile_stars_def Let_def)

lemma reconcile_stars_exact:
  assumes "h \<noteq> []"
    and "real_of_int \<bar>int (stargazers_count repo) - sum_list (map stars_gained h)\<bar>
             > real (stargazers_count repo) * 0.05"
    and "min 3 (int (length h)) dvd int (stargazers_count repo) - sum_list (map stars_gained h)"
    and "\<forall>r \<in> set (drop (length h - 3) h).
           0 \<le> stars_gained r
                + (int (stargazers_count repo) - sum_list (map stars_gained h)) div min 3 (int (length h))"
  shows "\<exists>h1. reconcile_stars repo h = Inr h1
           \<and> sum_list (map stars_gained h1) = int (stargazers_count repo)"
proof -
  define d where "d = int (stargazers_count repo) - sum_list (map stars_gained h)"
  define m where "m = min 3 (int (length h))"
  have m0: "m \<noteq> 0" and mle: "nat m \<le> length h"
    using months_to_adjust_bounds [OF assms(1)] by (simp_all add: m_def)
  have dr: "drop (length h - nat m) h = drop (length h - 3) h"
    by (simp add: m_def min_def)
  have eq: "reconcile_stars repo h = Inr (fold (adjust_stars (d div m)) [0..<nat m] h)"
    using assms(2) m0 by (simp add: reconcile_stars_def Let_def floordiv_def d_def m_def)
  have a4: "\<forall>r \<in> set (drop (length h - nat m) h). 0 \<le> stars_gained r + d div m"
    unfolding dr using assms(4) by (simp add: d_def m_def)
  have mdvd: "m dvd d" using assms(3) by (simp add: d_def m_def)
  have mpos: "0 \<le> m" by (simp add: m_def)
  have "sum_list (map stars_gained (fold (adjust_stars (d div m)) [0..<nat m] h))
          = sum_list (map stars_gained h) + (d div m) * int (nat m)"
    by (rule adjust_stars_sum [OF mle a4])
  also have "(d div m) * int (nat m) = d"
    using mdvd mpos by simp
  finally show ?thesis using eq by (simp add: d_def)
qed

lemma reconcile_forks_within:
  assumes "real_of_int \<bar>int (forks_count repo) - sum_list (map forks_gained h)\<bar>
             \<le> real (forks_count repo) * 0.05"
  shows "reconcile_forks repo h = Inr h"
  using assms by (simp add: reconcile_forks_def Let_def)

lemma reconcile_forks_exact:
  assumes "h \<noteq> []"
    and "real_of_int \<bar>int (forks_count repo) - sum_list (map forks_gained h)\<bar>
             > real (forks_count repo) * 0.05"
    and "min 3 (int (length h)) dvd int (forks_count repo) - sum_list (map forks_gained h)"
    and "\<forall>r \<in> set (drop (length h - 3) h).
           0 \<le> forks_gained r
                + (int (forks_count repo) - sum_list (map forks_gained h)) div min 3 (int (length h))"
  shows "\<exists>h1. reconcile_forks repo h = Inr h1
           \<and> sum_list (map forks_gained h1) = int (forks_count repo)"
proof -
  define d where "d = int (forks_count repo) - sum_list (map forks_gained h)"
  define m where "m = min 3 (int (length h))"
  have m0: "m \<noteq> 0" and mle: "nat m \<le> length h"
    using months_to_adjust_bounds [OF assms(1)] by (simp_all add: m_def)
  have dr: "drop (length h - nat m) h = drop (length h - 3) h"
    by (simp add: m_def min_def)
  have eq: "reconcile_forks repo h = Inr (fold (adjust_forks (d div m)) [0..<nat m] h)"
    using assms(2) m0 by (simp add: reconcile_forks_def Let_def floordiv_def d_def m_def)
  have a4: "\<forall>r \<in> set (drop (length h - nat m) h). 0 \<le> forks_gained r + d div m"
    unfolding dr using assms(4) by (simp add: d_def m_def)
  have mdvd: "m dvd d" using assms(3) by (simp add: d_def m_def)
  have mpos: "0 \<le> m" by (simp add: m_def)
  have "sum_list (map forks_gained (fold (adjust_forks (d div m)) [0..<nat m] h))
          = sum_list (map forks_gained h) + (d div m) * int (nat m)"
    by (rule adjust_forks_sum [OF mle a4])
  also have "(d div m) * int (nat m) = d"
    using mdvd mpos by simp
  finally show ?thesis using eq by (simp add: d_def)
qed

lemma final_adjustment_form:
  assumes "raw \<noteq> []"
  obtains h1 h2 where "reconcile_stars repo raw = Inr h1" "reconcile_forks repo h1 = Inr h2"
    "final_adjustment repo raw = Inr (recalculate 0 0 h2)"
    "length h1 = length raw" "length h2 = length raw"
    "map stars_gained h2 = map stars_gained h1" "map forks_gained h1 = map forks_gained raw"
    "map month_start h2 = map month_start raw"
proof -
  obtain h1 where h1: "reconcile_stars repo raw = Inr h1" "length h1 = length raw"
      "map forks_gained h1 = map forks_gained raw" "map month_start h1 = map month_start raw"
    using reconcile_stars_Inr [OF assms] by blast
  have ne: "h1 \<noteq> []" using h1(2) assms by auto
  obtain h2 where h2: "reconcile_forks repo h1 = Inr h2" "length h2 = length h1"
      "map stars_gained h2 = map stars_gained h1" "map month_start h2 = map month_start h1"
    using reconcile_forks_Inr [OF ne] by blast
  have "final_adjustment repo raw = Inr (recalculate 0 0 h2)"
    using assms h1(1) h2(1) by (simp add: final_adjustment_def)
  then show thesis using that h1 h2 by simp
qed

lemma final_adjustment_Inr:
  "\<exists>h. final_adjustment repo raw = Inr h \<and> length h = length raw
       \<and> map month_start h = map month_start raw
       \<and> (\<forall>r \<in> set h. total_stars_after r = total_stars_before r + stars_gained r \<and>
                        total_forks_after r = total_forks_before r + forks_gained r)
       \<and> (h \<noteq> [] \<longrightarrow> total_stars_after (last h) = sum_list (map stars_gained h) \<and>
                      total_forks_after (last h) = sum_list (map forks_gained h))"
proof (cases "raw = []")
  case True
  then show ?thesis by (simp add: final_adjustment_def)
next
  case False
  from final_adjustment_form [OF False, of repo]
  obtain h1 h2 where f: "final_adjustment repo raw = Inr (recalculate 0 0 h2)"
    "length h2 = length raw" "map month_start h2 = map month_start raw"
    by metis
  have ne: "h2 \<noteq> []" using f(2) False by auto
  show ?thesis
    using f recalculate_consistent [of _ 0 0 h2] recalculate_last [OF ne, of 0 0]
    by auto
qed

lemma initial_month:
  assumes "valid_datetime c"
  shows "replace_date c (year c) (month c) 1 = Inr (c\<lparr>day := 1\<rparr>)"
proof -
  have "valid_date (year c) (month c) 1"
    using assms days_in_month_ge [of "month c" "year c"]
    by (simp add: valid_datetime_def valid_date_def)
  then show ?thesis by (simp add: replace_date_def)
qed

lemma monthly_history_of_total:
  assumes "valid_datetime (created_at repo)" "valid_datetime now" "year now < 9999"
  shows "\<exists>h k'. monthly_history_of repo now rnd k sg = Inr (h, k')
     \<and> int (length h) = max 0 (12 * year now + month now
            - (12 * year (created_at repo) + month (created_at repo))
            + (if first_of_month_key (created_at repo) \<le> rest_key now then 1 else 0))
     \<and> (dt_le (created_at repo) now \<longrightarrow> h \<noteq> [])"
proof -
  let ?c = "created_at repo"
  let ?c1 = "?c\<lparr>day := 1\<rparr>"
  have v: "1 \<le> month ?c" "month ?c \<le> 12" "1 \<le> year ?c" "1 \<le> day ?c"
    "1 \<le> month now" "month now \<le> 12"
    using assms(1,2) by (simp_all add: valid_datetime_def valid_date_def MINYEAR_def)
  have rk: "rest_key ?c1 = first_of_month_key ?c"
    by (simp add: rest_key_def first_of_month_key_def)
  obtain raw k' where loop: "monthly_loop repo now rnd sg ?c1 0 0 k [] = Inr ([] @ raw, k')"
    "int (length raw) = max 0 (12 * year now + month now - (12 * year ?c1 + month ?c1)
          + (if rest_key ?c1 \<le> rest_key now then 1 else 0))"
    "dt_le ?c1 now \<longrightarrow> raw \<noteq> []"
    using monthly_loop_total [of ?c1 now repo rnd sg 0 0 k "[]"] v assms(3) by auto
  obtain h where h: "final_adjustment repo raw = Inr h" "length h = length raw"
    using final_adjustment_Inr by blast
  have le1: "dt_le ?c now \<Longrightarrow> dt_le ?c1 now"
  proof -
    assume a: "dt_le ?c now"
    have "rest_key ?c1 \<le> rest_key ?c" using v(4) by (simp add: rest_key_def)
    then show "dt_le ?c1 now" using a by (auto simp: dt_le_iff)
  qed
  have "monthly_history_of repo now rnd k sg = Inr (h, k')"
    using initial_month [OF assms(1)] loop(1) h(1) by (simp add: monthly_history_of_def Let_def)
  then show ?thesis using loop(2,3) h(2) rk le1 by auto
qed

lemma month_stars_first:
  assumes "year c = year (created_at repo)" "month c = month (created_at repo)"
  shows "month_stars repo now rnd c 0 k = Inr (0, k)"
proof -
  have msc: "(year c - year (created_at repo)) * 12 + (month c - month (created_at repo)) = 0"
    using assms by simp
  have g: "growth_factor 0 = 0" by (simp add: growth_factor_def)
  have t: "truediv 0 (real_of_int (max 1 x)) = Inr 0" for x
    by (simp add: truediv_def)
  show ?thesis
    unfolding month_stars_def Let_def msc of_int_0 t bind_err_simps g
    by (simp add: int_trunc_def)
qed

lemma month_body_first:
  assumes "year c = year (created_at repo)" "month c = month (created_at repo)"
  shows "\<exists>item. month_body repo now rnd sg c 0 0 k = Inr (item, 0, 0, k)
            \<and> stars_gained item = 0 \<and> forks_gained item = 0 \<and> month_start item = c"
  using month_stars_first [OF assms] by (simp add: month_body_def Let_def truediv_def)

lemma final_adjustment_sums:
  assumes "raw \<noteq> []"
  shows "\<exists>h. final_adjustment repo raw = Inr h \<and> length h = length raw
     \<and> total_stars_after (last h) = sum_list (map stars_gained h)
     \<and> total_forks_after (last h) = sum_list (map forks_gained h)
     \<and> (real_of_int \<bar>int (stargazers_count repo) - sum_list (map stars_gained raw)\<bar>
            \<le> real (stargazers_count repo) * 0.05
          \<longrightarrow> map stars_gained h = map stars_gained raw)
     \<and> (real_of_int \<bar>int (stargazers_count repo) - sum_list (map stars_gained raw)\<bar>
            > real (stargazers_count repo) * 0.05
          \<and> evenly_spread (int (stargazers_count repo) - sum_list (map stars_gained raw))
                (map stars_gained raw)
          \<longrightarrow> sum_list (map stars_gained h) = int (stargazers_count repo))
     \<and> (real_of_int \<bar>int (forks_count repo) - sum_list (map forks_gained raw)\<bar>
            \<le> real (forks_count repo) * 0.05
          \<longrightarrow> map forks_gained h = map forks_gained raw)
     \<and> (real_of_int \<bar>int (forks_count repo) - sum_list (map forks_gained raw)\<bar>
            > real (forks_count repo) * 0.05
          \<and> evenly_spread (int (forks_count repo) - sum_list (map forks_gained raw))
                (map forks_gained raw)
          \<longrightarrow> sum_list (map forks_gained h) = int (forks_count repo))"
proof -
  from final_adjustment_form [OF assms, of repo]
  obtain h1 h2 where f: "reconcile_stars repo raw = Inr h1" "reconcile_forks repo h1 = Inr h2"
    "final_adjustment repo raw = Inr (recalculate 0 0 h2)"
    "length h1 = length raw" "length h2 = length raw"
    "map stars_gained h2 = map stars_gained h1" "map forks_gained h1 = map forks_gained raw"
    "map month_start h2 = map month_start raw"
    by metis
  let ?h = "recalculate 0 0 h2"
  have ne1: "h1 \<noteq> []" and ne2: "h2 \<noteq> []" using f(4,5) assms by auto
  have last: "total_stars_after (last ?h) = sum_list (map stars_gained ?h)"
      "total_forks_after (last ?h) = sum_list (map forks_gained ?h)"
    using recalculate_last [OF ne2, of 0 0] by simp_all
  have s_within: "map stars_gained ?h = map stars_gained raw"
    if "real_of_int \<bar>int (stargazers_count repo) - sum_list (map stars_gained raw)\<bar>
            \<le> real (stargazers_count repo) * 0.05"
    using reconcile_stars_within [OF that] f(1,6) by simp
  have s_exact: "sum_list (map stars_gained ?h) = int (stargazers_count repo)"
    if a: "real_of_int \<bar>int (stargazers_count repo) - sum_list (map stars_gained raw)\<bar>
            > real (stargazers_count repo) * 0.05"
     and b: "evenly_spread (int (stargazers_count repo) - sum_list (map stars_gained raw))
                (map stars_gained raw)"
  proof -
    have "\<exists>h1'. reconcile_stars repo raw = Inr h1'
           \<and> sum_list (map stars_gained h1') = int (stargazers_count repo)"
      using b by (intro reconcile_stars_exact [OF assms a]) (simp_all add: evenly_spread_def drop_map)
    then show ?thesis using f(1,6) by auto
  qed
  have f_within: "map forks_gained ?h = map forks_gained raw"
    if "real_of_int \<bar>int (forks_count repo) - sum_list (map forks_gained raw)\<bar>
            \<le> real (forks_count repo) * 0.05"
  proof -
    have "reconcile_forks repo h1 = Inr h1"
      using that by (intro reconcile_forks_within) (simp add: f(7))
    then show ?thesis using f(2,7) by simp
  qed
  have f_exact: "sum_list (map forks_gained ?h) = int (forks_count repo)"
    if a: "real_of_int \<bar>int (forks_count repo) - sum_list (map forks_gained raw)\<bar>
            > real (forks_count repo) * 0.05"
     and b: "evenly_spread (int (forks_count repo) - sum_list (map forks_gained raw))
                (map forks_gained raw)"
  proof -
    have b': "evenly_spread (int (forks_count repo) - sum_list (map forks_gained h1))
                (map forks_gained h1)"
      using b by (simp only: f(7))
    have a': "real_of_int \<bar>int (forks_count repo) - sum_list (map forks_gained h1)\<bar>
            > real (forks_count repo) * 0.05"
      using a by (simp only: f(7))
    have c1: "min 3 (int (length h1)) dvd int (forks_count repo) - sum_list (map forks_gained h1)"
      using b' by (simp add: evenly_spread_def)
    have c2: "\<forall>r \<in> set (drop (length h1 - 3) h1).
           0 \<le> forks_gained r
                + (int (forks_count repo) - sum_list (map forks_gained h1)) div min 3 (int (length h1))"
      using b' by (simp add: evenly_spread_def drop_map)
    have "\<exists>h2'. reconcile_forks repo h1 = Inr h2'
           \<and> sum_list (map forks_gained h2') = int (forks_count repo)"
      by (rule reconcile_forks_exact [OF ne1 a' c1 c2])
    then show ?thesis using f(2) by auto
  qed
  show ?thesis
    using f(3,5) last s_within s_exact f_within f_exact by (intro exI [of _ ?h]) simp
qed

lemma monthly_history_of_final:
  assumes "monthly_history_of repo now rnd k sg = Inr (h, k')"
  shows "\<exists>raw. final_adjustment repo raw = Inr h"
  using assms
  by (auto simp: monthly_history_of_def Let_def bind_err_def split: sum.splits prod.splits)

lemma first_day_le:
  assumes "1 \<le> day c" "dt_le c now"
  shows "dt_le (c\<lparr>day := 1\<rparr>) now"
proof -
  have "rest_key (c\<lparr>day := 1\<rparr>) \<le> rest_key c" using assms(1) by (simp add: rest_key_def)
  then show ?thesis using assms(2) by (auto simp: dt_le_iff)
qed

section \<open>Properties of the monthly history\<close>

text \<open>
  Claim C1, as stated: the gains of the returned history would always add up to the
  authoritative star total. The final adjustment acts only on a difference of more than
  5 percent. For a repository with 100 stars created in January 2023, at the current date
  2023-02-10 and with \<open>random.random()\<close> returning 0.5625, the simulated February gain is
  103; the difference of 3 is within the tolerance and stays: the gains add up to 103 and
  the last record's \<open>total_stars_after\<close> is 103.
\<close>

theorem reconciliation_within_tolerance_counterexample:
  "monthly_history_of
     \<lparr>stargazers_count = 100, forks_count = 10,
      created_at = \<lparr>year = 2023, month = 1, day = 15, hour = 10, minute = 30, second = 0, microsecond = 0\<rparr>\<rparr>
     \<lparr>year = 2023, month = 2, day = 10, hour = 8, minute = 0, second = 0, microsecond = 0\<rparr>
     (\<lambda>_. 9/16) 0 []
   = Inr ([\<lparr>month_start = \<lparr>year = 2023, month = 1, day = 1, hour = 10, minute = 30, second = 0, microsecond = 0\<rparr>,
      stars_gained = 0, forks_gained = 0, total_stars_before = 0, total_stars_after = 0,
      total_forks_before = 0, total_forks_after = 0\<rparr>,
     \<lparr>month_start = \<lparr>year = 2023, month = 2, day = 1, hour = 10, minute = 30, second = 0, microsecond = 0\<rparr>,
      stars_gained = 103, forks_gained = 10, total_stars_before = 0, total_stars_after = 103,
      total_forks_before = 0, total_forks_after = 10\<rparr>], 1)
   \<and> sum_list (map stars_gained
     [\<lparr>month_start = \<lparr>year = 2023, month = 1, day = 1, hour = 10, minute = 30, second = 0, microsecond = 0\<rparr>,
      stars_gained = 0, forks_gained = 0, total_stars_before = 0, total_stars_after = 0,
      total_forks_before = 0, total_forks_after = 0\<rparr>,
     \<lparr>month_start = \<lparr>year = 2023, month = 2, day = 1, hour = 10, minute = 30, second = 0, microsecond = 0\<rparr>,
      stars_gained = 103, forks_gained = 10, total_stars_before = 0, total_stars_after = 103,
      total_forks_before = 0, total_forks_after = 10\<rparr>]) \<noteq> 100"
  by code_simp

text \<open>
  Claim C1, amended. In every returned monthly history the last record's
  \<open>total_stars_after\<close> is the sum of \<open>stars_gained\<close> over all records, and likewise for
  forks. The returned history is the final adjustment of the series that the loop
  simulates: it has the same length, and when the simulated sum is within 5 percent of the
  authoritative total its gains are the simulated ones, so that their sum may differ from
  the total by up to 5 percent, while when the simulated sum is off by more than 5 percent
  and the difference spreads evenly over the adjusted months (their number, at most three,
  divides it and no adjusted gain falls below zero) the gains of the returned history add
  up to the authoritative total exactly. The same holds for forks. For valid timestamps
  with the creation not after the current date (and a current year below 9999) the loop
  returns a non-empty series and the history is returned.
\<close>

theorem monthly_history_reconciliation:
  "(monthly_history_of repo now rnd k sg = Inr (h, k') \<and> h \<noteq> [] \<longrightarrow>
      total_stars_after (last h) = sum_list (map stars_gained h) \<and>
      total_forks_after (last h) = sum_list (map forks_gained h))
   \<and> (replace_date (created_at repo) (year (created_at repo)) (month (created_at repo)) 1 = Inr c
        \<and> monthly_loop repo now rnd sg c 0 0 k [] = Inr (raw, k'') \<and> raw \<noteq> [] \<longrightarrow>
        (\<exists>h'. monthly_history_of repo now rnd k sg = Inr (h', k'') \<and> length h' = length raw
           \<and> total_stars_after (last h') = sum_list (map stars_gained h')
           \<and> total_forks_after (last h') = sum_list (map forks_gained h')
           \<and> (real_of_int \<bar>int (stargazers_count repo) - sum_list (map stars_gained raw)\<bar>
                  \<le> real (stargazers_count repo) * 0.05
                \<longrightarrow> map stars_gained h' = map stars_gained raw)
           \<and> (real_of_int \<bar>int (stargazers_count repo) - sum_list (map stars_gained raw)\<bar>
                  > real (stargazers_count repo) * 0.05
                \<and> evenly_spread (int (stargazers_count repo) - sum_list (map stars_gained raw))
                      (map stars_gained raw)
                \<longrightarrow> sum_list (map stars_gained h') = int (stargazers_count repo))
           \<and> (real_of_int \<bar>int (forks_count repo) - sum_list (map forks_gained raw)\<bar>
                  \<le> real (forks_count repo) * 0.05
                \<longrightarrow> map forks_gained h' = map forks_gained raw)
           \<and> (real_of_int \<bar>int (forks_count repo) - sum_list (map forks_gained raw)\<bar>
                  > real (forks_count repo) * 0.05
                \<and> evenly_spread (int (forks_count repo) - sum_list (map forks_gained raw))
                      (map forks_gained raw)
                \<longrightarrow> sum_list (map forks_gained h') = int (forks_count repo))))
   \<and> (valid_datetime (created_at repo) \<and> valid_datetime now \<and> year now < 9999
        \<and> dt_le (created_at repo) now \<longrightarrow>
        (\<exists>c0 raw0 k0 h0.
            replace_date (created_at repo) (year (created_at repo)) (month (created_at repo)) 1 = Inr c0
          \<and> monthly_loop repo now rnd sg c0 0 0 k [] = Inr (raw0, k0) \<and> raw0 \<noteq> []
          \<and> monthly_history_of repo now rnd k sg = Inr (h0, k0) \<and> length h0 = length raw0))"
proof (intro conjI impI)
  assume a: "monthly_history_of repo now rnd k sg = Inr (h, k') \<and> h \<noteq> []"
  then obtain raw0 where "final_adjustment repo raw0 = Inr h"
    using monthly_history_of_final by blast
  then show "total_stars_after (last h) = sum_list (map stars_gained h)"
    and "total_forks_after (last h) = sum_list (map forks_gained h)"
    using final_adjustment_Inr [of repo raw0] a by auto
next
  assume a: "replace_date (created_at repo) (year (created_at repo)) (month (created_at repo)) 1 = Inr c
        \<and> monthly_loop repo now rnd sg c 0 0 k [] = Inr (raw, k'') \<and> raw \<noteq> []"
  then have ne: "raw \<noteq> []" by simp
  have m: "monthly_history_of repo now rnd k sg = Inr (h', k'')"
    if "final_adjustment repo raw = Inr h'" for h'
    using a that by (simp add: monthly_history_of_def Let_def)
  from final_adjustment_sums [OF ne, of repo] m
  show "\<exists>h'. monthly_history_of repo now rnd k sg = Inr (h', k'') \<and> length h' = length raw
           \<and> total_stars_after (last h') = sum_list (map stars_gained h')
           \<and> total_forks_after (last h') = sum_list (map forks_gained h')
           \<and> (real_of_int \<bar>int (stargazers_count repo) - sum_list (map stars_gained raw)\<bar>
                  \<le> real (stargazers_count repo) * 0.05
                \<longrightarrow> map stars_gained h' = map stars_gained raw)
           \<and> (real_of_int \<bar>int (stargazers_count repo) - sum_list (map stars_gained raw)\<bar>
                  > real (stargazers_count repo) * 0.05
                \<and> evenly_spread (int (stargazers_count repo) - sum_list (map stars_gained raw))
                      (map stars_gained raw)
                \<longrightarrow> sum_list (map stars_gained h') = int (stargazers_count repo))
           \<and> (real_of_int \<bar>int (forks_count repo) - sum_list (map forks_gained raw)\<bar>
                  \<le> real (forks_count repo) * 0.05
                \<longrightarrow> map forks_gained h' = map forks_gained raw)
           \<and> (real_of_int \<bar>int (forks_count repo) - sum_list (map forks_gained raw)\<bar>
                  > real (forks_count repo) * 0.05
                \<and> evenly_spread (int (forks_count repo) - sum_list (map forks_gained raw))
                      (map forks_gained raw)
                \<longrightarrow> sum_list (map forks_gained h') = int (forks_count repo))"
    by blast
next
  assume a: "valid_datetime (created_at repo) \<and> valid_datetime now \<and> year now < 9999
        \<and> dt_le (created_at repo) now"
  let ?c = "created_at repo"
  let ?c1 = "?c\<lparr>day := 1\<rparr>"
  have v: "1 \<le> month ?c" "month ?c \<le> 12" "1 \<le> year ?c" "1 \<le> day ?c"
    "1 \<le> month now" "month now \<le> 12"
    using a by (simp_all add: valid_datetime_def valid_date_def MINYEAR_def)
  have r: "replace_date ?c (year ?c) (month ?c) 1 = Inr ?c1"
    using a initial_month by blast
  have le: "dt_le ?c1 now" using first_day_le [OF v(4)] a by blast
  obtain raw0 k0 where loop: "monthly_loop repo now rnd sg ?c1 0 0 k [] = Inr ([] @ raw0, k0)"
    "dt_le ?c1 now \<longrightarrow> raw0 \<noteq> []"
    using monthly_loop_total [of ?c1 now repo rnd sg 0 0 k "[]"] v a by auto
  obtain h0 where h0: "final_adjustment repo raw0 = Inr h0" "length h0 = length raw0"
    using final_adjustment_Inr by blast
  have "monthly_history_of repo now rnd k sg = Inr (h0, k0)"
    using r loop(1) h0(1) by (simp add: monthly_history_of_def Let_def)
  then show "\<exists>c0 raw0 k0 h0.
            replace_date (created_at repo) (year (created_at repo)) (month (created_at repo)) 1 = Inr c0
          \<and> monthly_loop repo now rnd sg c0 0 0 k [] = Inr (raw0, k0) \<and> raw0 \<noteq> []
          \<and> monthly_history_of repo now rnd k sg = Inr (h0, k0) \<and> length h0 = length raw0"
    using r loop le h0(2) by auto
qed

theorem monthly_history_reconciliation_witness:
  "\<exists>h'. monthly_history_of
     \<lparr>stargazers_count = 100, forks_count = 10,
      created_at = \<lparr>year = 2023, month = 1, day = 15, hour = 10, minute = 30, second = 0, microsecond = 0\<rparr>\<rparr>
     \<lparr>year = 2023, month = 2, day = 10, hour = 8, minute = 0, second = 0, microsecond = 0\<rparr>
     (\<lambda>_. 0) 0 [] = Inr (h', 1)
   \<and> length h' = 2
   \<and> sum_list (map stars_gained h') = 100
   \<and> total_stars_after (last h') = 100"
proof -
  let ?R = "\<lparr>stargazers_count = 100, forks_count = 10,
      created_at = \<lparr>year = 2023, month = 1, day = 15, hour = 10, minute = 30, second = 0, microsecond = 0\<rparr>\<rparr>"
  let ?N = "\<lparr>year = 2023, month = 2, day = 10, hour = 8, minute = 0, second = 0, microsecond = 0\<rparr>"
  let ?C = "\<lparr>year = 2023, month = 1, day = 1, hour = 10, minute = 30, second = 0, microsecond = 0\<rparr>"
  let ?raw = "[\<lparr>month_start = \<lparr>year = 2023, month = 1, day = 1, hour = 10, minute = 30, second = 0, microsecond = 0\<rparr>,
      stars_gained = 0, forks_gained = 0, total_stars_before = 0, total_stars_after = 0,
      total_forks_before = 0, total_forks_after = 0\<rparr>,
     \<lparr>month_start = \<lparr>year = 2023, month = 2, day = 1, hour = 10, minute = 30, second = 0, microsecond = 0\<rparr>,
      stars_gained = 70, forks_gained = 7, total_stars_before = 0, total_stars_after = 70,
      total_forks_before = 0, total_forks_after = 7\<rparr>]"
  have r: "replace_date (created_at ?R) (year (created_at ?R)) (month (created_at ?R)) 1 = Inr ?C"
    by code_simp
  have l: "monthly_loop ?R ?N (\<lambda>_. 0) [] ?C 0 0 0 [] = Inr (?raw, 1)"
    by code_simp
  from monthly_history_reconciliation [of ?R ?N "\<lambda>_. 0" 0 "[]" "[]" 0 ?C ?raw 1] r l
  have "\<exists>h'. monthly_history_of ?R ?N (\<lambda>_. 0) 0 [] = Inr (h', 1) \<and> length h' = length ?raw
           \<and> total_stars_after (last h') = sum_list (map stars_gained h')
           \<and> sum_list (map stars_gained h') = int (stargazers_count ?R)"
    by (auto simp: evenly_spread_def)
  then show ?thesis by auto
qed

text \<open>
  Claim C2. The monthly history does not depend on the star events: the count of real
  stars of a month is computed and then overwritten by the simulated value, so two runs on
  the same repository, current date and random sequence return the same history whatever
  the two lists of star events are.
\<close>

theorem history_independent_of_star_events:
  "monthly_history_of repo current_date rnd k stargazers =
   monthly_history_of repo current_date rnd k stargazers'"
  by (simp add: monthly_history_of_def
      monthly_loop_stargazers [of _ _ _ stargazers _ _ _ _ _ stargazers'])

theorem history_independent_of_star_events_witness:
  "monthly_history_of
     \<lparr>stargazers_count = 100, forks_count = 10,
      created_at = \<lparr>year = 2023, month = 1, day = 15, hour = 10, minute = 30, second = 0, microsecond = 0\<rparr>\<rparr>
     \<lparr>year = 2023, month = 2, day = 10, hour = 8, minute = 0, second = 0, microsecond = 0\<rparr>
     (\<lambda>_. 9/16) 0 []
   = monthly_history_of
     \<lparr>stargazers_count = 100, forks_count = 10,
      created_at = \<lparr>year = 2023, month = 1, day = 15, hour = 10, minute = 30, second = 0, microsecond = 0\<rparr>\<rparr>
     \<lparr>year = 2023, month = 2, day = 10, hour = 8, minute = 0, second = 0, microsecond = 0\<rparr>
     (\<lambda>_. 9/16) 0
     [\<lparr>starred_at = Some \<lparr>year = 2023, month = 2, day = 3, hour = 7, minute = 0, second = 0, microsecond = 0\<rparr>\<rparr>,
      \<lparr>starred_at = None\<rparr>]"
  by (rule history_independent_of_star_events)

text \<open>
  Claim C5. A repository created in the calendar month of the current date (and not after
  it) has a monthly history of exactly one record, whose \<open>total_stars_after\<close> is the
  authoritative star total. The current year is below 9999, the last year a \<open>datetime\<close>
  can hold: stepping past December 9999 raises.
\<close>

theorem single_month_history:
  assumes "valid_datetime (created_at repo)" "valid_datetime now"
    and "dt_le (created_at repo) now"
    and "year now = year (created_at repo)" "month now = month (created_at repo)"
    and "year now < 9999"
  shows "\<exists>r k'. monthly_history_of repo now rnd k sg = Inr ([r], k')
           \<and> total_stars_after r = int (stargazers_count repo)"
proof -
  let ?c = "created_at repo"
  let ?c1 = "?c\<lparr>day := 1\<rparr>"
  let ?N = "int (stargazers_count repo)"
  have v: "1 \<le> month ?c" "month ?c \<le> 12" "1 \<le> year ?c" "1 \<le> day ?c"
    "1 \<le> month now" "month now \<le> 12"
    using assms(1,2) by (simp_all add: valid_datetime_def valid_date_def MINYEAR_def)
  have le: "dt_le ?c1 now" by (rule first_day_le [OF v(4) assms(3)])
  obtain item where body: "month_body repo now rnd sg ?c1 0 0 k = Inr (item, 0, 0, k)"
      "stars_gained item = 0"
    using month_body_first [of ?c1 repo now rnd sg k] by auto
  obtain c' where nm: "next_month ?c1 = Inr c'" "day c' = 1" "1 \<le> month c'" "month c' \<le> 12"
      "1 \<le> year c'" "12 * year c' + month c' = 12 * year ?c1 + month ?c1 + 1"
    using next_month_Inr [of ?c1] v assms(4,6) by auto
  obtain h' k' where rest: "monthly_loop repo now rnd sg c' 0 0 k [item] = Inr ([item] @ h', k')"
      "int (length h') = max 0 (12 * year now + month now - (12 * year c' + month c')
          + (if rest_key c' \<le> rest_key now then 1 else 0))"
    using monthly_loop_total [OF nm(2-5) assms(6) v(5,6), of repo rnd sg 0 0 k "[item]"] by blast
  have "h' = []" using rest(2) nm(6) assms(4,5) by (simp split: if_splits)
  then have loop: "monthly_loop repo now rnd sg ?c1 0 0 k [] = Inr ([item], k')"
    using le body(1) nm(1) rest(1) by (subst monthly_loop.simps) simp
  have ne: "[item] \<noteq> []" by simp
  obtain h where h: "final_adjustment repo [item] = Inr h" "length h = length [item]"
      "total_stars_after (last h) = sum_list (map stars_gained h)"
      "real_of_int \<bar>?N - sum_list (map stars_gained [item])\<bar> \<le> real (stargazers_count repo) * 0.05
          \<longrightarrow> map stars_gained h = map stars_gained [item]"
      "real_of_int \<bar>?N - sum_list (map stars_gained [item])\<bar> > real (stargazers_count repo) * 0.05
          \<and> evenly_spread (?N - sum_list (map stars_gained [item])) (map stars_gained [item])
          \<longrightarrow> sum_list (map stars_gained h) = ?N"
    using final_adjustment_sums [OF ne, of repo] by blast
  obtain r where r: "h = [r]" using h(2) by (cases h) auto
  have "sum_list (map stars_gained h) = ?N"
  proof (cases "stargazers_count repo = 0")
    case True
    then show ?thesis using h(4) body(2) by simp
  next
    case False
    then show ?thesis using h(5) body(2) by (simp add: evenly_spread_def)
  qed
  then have "total_stars_after r = ?N" using h(3) r by simp
  moreover have "monthly_history_of repo now rnd k sg = Inr ([r], k')"
    using initial_month [OF assms(1)] loop h(1) r by (simp add: monthly_history_of_def Let_def)
  ultimately show ?thesis by blast
qed

theorem single_month_history_witness:
  "\<exists>r k'. monthly_history_of
      \<lparr>stargazers_count = 250, forks_count = 40,
       created_at = \<lparr>year = 2024, month = 6, day = 3, hour = 9, minute = 15, second = 0, microsecond = 0\<rparr>\<rparr>
      \<lparr>year = 2024, month = 6, day = 20, hour = 12, minute = 0, second = 0, microsecond = 0\<rparr>
      (\<lambda>_. 1/2) 0 [] = Inr ([r], k') \<and> total_stars_after r = 250"
proof -
  let ?repo = "\<lparr>stargazers_count = 250, forks_count = 40,
       created_at = \<lparr>year = 2024, month = 6, day = 3, hour = 9, minute = 15, second = 0, microsecond = 0\<rparr>\<rparr>"
  let ?now = "\<lparr>year = 2024, month = 6, day = 20, hour = 12, minute = 0, second = 0, microsecond = 0\<rparr>"
  have 1: "valid_datetime (created_at ?repo)" by code_simp
  have 2: "valid_datetime ?now" by code_simp
  have 3: "dt_le (created_at ?repo) ?now" by code_simp
  have 4: "year ?now = year (created_at ?repo)" "month ?now = month (created_at ?repo)" "year ?now < 9999"
    by simp_all
  show ?thesis
    using single_month_history [OF 1 2 3 4, of "\<lambda>_. 1/2" 0 "[]"] by simp
qed

section \<open>Facts about the calendar\<close>

lemma div_mod_unique:
  fixes b q r :: int
  assumes "0 \<le> r" "r < b"
  shows "(b * q + r) div b = q" "(b * q + r) mod b = r"
  using assms by simp_all

lemma mod_top:
  fixes x k :: int
  assumes "0 < x" "x \<le> k"
  shows "x mod k = 0 \<longleftrightarrow> x = k"
proof (cases "x = k")
  case True
  then show ?thesis by simp
next
  case False
  then have "x mod k = x" using assms by simp
  then show ?thesis using assms False by simp
qed

lemma dby_decomp:
  assumes "0 \<le> b" "b \<le> 3" "0 \<le> c" "c \<le> 24" "0 \<le> e" "e \<le> 3"
  shows "days_before_year (400 * a + 100 * b + 4 * c + e + 1)
           = 146097 * a + 36524 * b + 1461 * c + 365 * e"
proof -
  let ?Y = "400 * a + 100 * b + 4 * c + e"
  have "?Y = 4 * (100 * a + 25 * b + c) + e" by simp
  then have d4: "?Y div 4 = 100 * a + 25 * b + c"
    using div_mod_unique(1) [of e 4 "100 * a + 25 * b + c"] assms by simp
  have "?Y = 100 * (4 * a + b) + (4 * c + e)" by simp
  then have d100: "?Y div 100 = 4 * a + b"
    using div_mod_unique(1) [of "4 * c + e" 100 "4 * a + b"] assms by simp
  have "?Y = 400 * a + (100 * b + 4 * c + e)" by simp
  then have d400: "?Y div 400 = a"
    using div_mod_unique(1) [of "100 * b + 4 * c + e" 400 a] assms by simp
  show ?thesis
    unfolding days_before_year_def Let_def using d4 d100 d400 by simp
qed

lemma is_leap_decomp:
  assumes "0 \<le> b" "b \<le> 3" "0 \<le> c" "c \<le> 24" "0 \<le> e" "e \<le> 3"
  shows "is_leap (400 * a + 100 * b + 4 * c + e + 1) \<longleftrightarrow> e = 3 \<and> (c \<noteq> 24 \<or> b = 3)"
proof -
  let ?y = "400 * a + 100 * b + 4 * c + e + 1"
  have m4: "?y mod 4 = (e + 1) mod 4"
  proof -
    have "?y = (e + 1) + 4 * (100 * a + 25 * b + c)" by simp
    then show ?thesis by (metis mod_mult_self2)
  qed
  have m100: "?y mod 100 = (4 * c + e + 1) mod 100"
  proof -
    have "?y = (4 * c + e + 1) + 100 * (4 * a + b)" by simp
    then show ?thesis by (metis mod_mult_self2)
  qed
  have m400: "?y mod 400 = (100 * b + 4 * c + e + 1) mod 400"
  proof -
    have "?y = (100 * b + 4 * c + e + 1) + 400 * a" by simp
    then show ?thesis by (metis mod_mult_self2)
  qed
  have e4: "(e + 1) mod 4 = 0 \<longleftrightarrow> e = 3"
    using mod_top [of "e + 1" 4] assms by auto
  have e100: "(4 * c + e + 1) mod 100 = 0 \<longleftrightarrow> 4 * c + e + 1 = 100"
    using mod_top [of "4 * c + e + 1" 100] assms by auto
  have e400: "(100 * b + 4 * c + e + 1) mod 400 = 0 \<longleftrightarrow> 100 * b + 4 * c + e + 1 = 400"
    using mod_top [of "100 * b + 4 * c + e + 1" 400] assms by auto
  show ?thesis
    unfolding is_leap_def m4 m100 m400 e4 e100 e400 using assms by auto
qed

lemma md_ok_all: "list_all (\<lambda>m. list_all (\<lambda>d. md_ok True m d \<and> md_ok False m d) [1..31]) [1..12]"
  by code_simp

lemma yd_ok_all: "list_all (\<lambda>n. yd_ok True n \<and> yd_ok False n) [0..364]"
  by code_simp

lemma yd_ok: "0 \<le> n \<Longrightarrow> n \<le> 364 \<Longrightarrow> yd_ok leapyear n"
  using yd_ok_all by (cases leapyear) (auto simp: list_all_iff)

lemma md_ok: "1 \<le> m \<Longrightarrow> m \<le> 12 \<Longrightarrow> 1 \<le> d \<Longrightarrow> d \<le> 31 \<Longrightarrow> md_ok leapyear m d"
  using md_ok_all by (cases leapyear) (auto simp: list_all_iff)




lemma dim_le_31: "1 \<le> m \<Longrightarrow> m \<le> 12 \<Longrightarrow> days_in_month y m \<le> 31"
proof -
  assume "1 \<le> m" "m \<le> 12"
  then consider "m = 1" | "m = 2" | "m = 3" | "m = 4" | "m = 5" | "m = 6" | "m = 7" | "m = 8"
    | "m = 9" | "m = 10" | "m = 11" | "m = 12" by atomize_elim arith
  then show ?thesis
    by cases (simp_all add: days_in_month_def DAYS_IN_MONTH_def)
qed


lemma ymd2ord_bounds:
  assumes "valid_date y m d"
  shows "1 \<le> ymd2ord y m d" "ymd2ord y m d \<le> MAXORDINAL"
proof -
  have v: "1 \<le> y" "y \<le> 9999" "1 \<le> m" "m \<le> 12" "1 \<le> d" "d \<le> days_in_month y m"
    using assms by (simp_all add: valid_date_def MINYEAR_def MAXYEAR_def)
  define n where "n = ymd2ord y m d"
  define a where "a = (y - 1) div 400"
  define ra where "ra = (y - 1) mod 400"
  define b where "b = ra div 100"
  define rb where "rb = ra mod 100"
  define c where "c = rb div 4"
  define e where "e = rb mod 4"
  define t where "t = days_before_month y m + d - 1"
  have q1: "y - 1 = 400 * a + ra" by (simp add: a_def ra_def)
  have rab: "0 \<le> ra" "ra < 400" by (simp_all add: ra_def)
  have q2: "ra = 100 * b + rb" by (simp add: b_def rb_def)
  have rbb: "0 \<le> rb" "rb < 100" by (simp_all add: rb_def)
  have q3: "rb = 4 * c + e" by (simp add: c_def e_def)
  have eb: "0 \<le> e" "e \<le> 3" by (simp_all add: e_def)
  have bb: "0 \<le> b" "b \<le> 3" using q2 rab rbb by linarith+
  have cb: "0 \<le> c" "c \<le> 24" using q3 rbb eb by linarith+
  have ab: "0 \<le> a" "a \<le> 24" using q1 rab v(1,2) by linarith+
  have y1: "y = 400 * a + 100 * b + 4 * c + e + 1" using q1 q2 q3 by linarith
  have dy: "days_before_year y = 146097 * a + 36524 * b + 1461 * c + 365 * e"
    unfolding y1 by (rule dby_decomp) (use bb cb eb in simp_all)
  have lp: "is_leap y \<longleftrightarrow> e = 3 \<and> (c \<noteq> 24 \<or> b = 3)"
    unfolding y1 by (rule is_leap_decomp) (use bb cb eb in simp_all)
  have d31: "d \<le> 31" using dim_le_31 [OF v(3,4), of y] v(6) by linarith
  have mo: "md_ok (is_leap y) m d" by (rule md_ok [OF v(3,4,5) d31])
  have dl: "d \<le> (if m = 2 \<and> is_leap y then 29 else DAYS_IN_MONTH ! nat m)"
    using v(6) by (simp add: days_in_month_def)
  have tt: "DAYS_BEFORE_MONTH ! nat m + (if m > 2 \<and> is_leap y then 1 else 0) + d - 1 = t"
    by (simp add: t_def days_before_month_def)
  have mt: "0 \<le> t"
      "if t \<le> 364 then yday2md (is_leap y) t = (m, d) else is_leap y \<and> m = 12 \<and> d = 31 \<and> t = 365"
    using mo dl unfolding md_ok_def Let_def tt by blast+
  have tb: "t \<le> 365" "t = 365 \<Longrightarrow> e = 3 \<and> (c \<noteq> 24 \<or> b = 3)"
    using mt(2) lp by (auto split: if_splits)
  have nn: "n = 146097 * a + 36524 * b + 1461 * c + 365 * e + t + 1"
    using dy by (simp add: n_def ymd2ord_def t_def)
  show "1 \<le> ymd2ord y m d"
    using nn ab bb cb eb mt(1) unfolding n_def by linarith
  have yb: "400 * a + 100 * b + 4 * c + e \<le> 9998" using y1 v(2) by linarith
  have "n \<le> 3652059"
  proof (cases "a \<le> 23")
    case True
    then show ?thesis using nn bb cb eb tb(1) by linarith
  next
    case False
    then have a24: "a = 24" using ab by linarith
    show ?thesis
    proof (cases "b \<le> 2")
      case True
      then show ?thesis using nn a24 cb eb tb(1) by linarith
    next
      case False
      then have b3: "b = 3" using bb by linarith
      show ?thesis
      proof (cases "c \<le> 23")
        case True
        then show ?thesis using nn a24 b3 eb tb(1) by linarith
      next
        case False
        then have c24: "c = 24" using cb by linarith
        have e2: "e \<le> 2" using yb a24 b3 c24 by linarith
        then have "t \<le> 364" using tb by (cases "t = 365") (use tb in auto)
        then show ?thesis using nn a24 b3 c24 e2 by linarith
      qed
    qed
  qed
  then show "ymd2ord y m d \<le> MAXORDINAL" by (simp add: n_def MAXORDINAL_def)
qed

section \<open>Properties of the country distribution\<close>

lemma country_loop_Inr:
  assumes "\<forall>e \<in> set a. 0 < val e" "\<forall>e \<in> set b. 0 < val e" "\<forall>e \<in> set c. 0 < val e"
  shows "\<exists>cs cf cc. country_loop repo tot items (a, b, c) = Inr (cs, cf, cc)
     \<and> (\<forall>e \<in> set cs. 0 < val e) \<and> (\<forall>e \<in> set cf. 0 < val e) \<and> (\<forall>e \<in> set cc. 0 < val e)"
  using assms
proof (induction items arbitrary: a b c)
  case Nil
  then show ?case by simp
next
  case (Cons it items)
  obtain country contribs where it: "it = (country, contribs)" by (cases it)
  show ?case
  proof (cases "tot > 0")
    case False
    then show ?thesis using Cons.IH [OF Cons.prems] by (simp add: it)
  next
    case True
    let ?ratio = "real_of_int contribs / real_of_int tot"
    let ?s = "int_trunc (real (stargazers_count repo) * ?ratio)"
    let ?f = "int_trunc (real (forks_count repo) * ?ratio)"
    let ?a = "if ?s > 0 then a @ [\<lparr>label = country, val = ?s\<rparr>] else a"
    let ?b = "if ?f > 0 then b @ [\<lparr>label = country, val = ?f\<rparr>] else b"
    let ?c = "if contribs * 10 > 0 then c @ [\<lparr>label = country, val = contribs * 10\<rparr>] else c"
    have pa: "\<forall>e \<in> set ?a. 0 < val e" using Cons.prems(1) by auto
    have pb: "\<forall>e \<in> set ?b. 0 < val e" using Cons.prems(2) by auto
    have pc: "\<forall>e \<in> set ?c. 0 < val e" using Cons.prems(3) by auto
    have "country_loop repo tot (it # items) (a, b, c) = country_loop repo tot items (?a, ?b, ?c)"
      using True by (simp add: it truediv_def Let_def)
    then show ?thesis using Cons.IH [OF pa pb pc] by simp
  qed
qed

lemma sort_desc_sorted: "sorted_wrt (\<lambda>a b. val b \<le> val a) (sort_desc xs)"
proof -
  have "sorted (map (\<lambda>x. - val x) (sort_key (\<lambda>x. - val x) xs))"
    by (rule sorted_sort_key)
  then show ?thesis by (simp add: sort_desc_def sorted_map)
qed

lemma top8:
  assumes "\<forall>e \<in> set xs. 0 < val e"
  shows "length (take 8 (sort_desc xs)) \<le> 8
     \<and> sorted_wrt (\<lambda>a b. val b \<le> val a) (take 8 (sort_desc xs))
     \<and> (\<forall>e \<in> set (take 8 (sort_desc xs)). 0 < val e)"
proof -
  have "set (take 8 (sort_desc xs)) \<subseteq> set xs"
    using set_take_subset [of 8 "sort_desc xs"] by (simp add: sort_desc_def)
  then show ?thesis
    using assms sort_desc_sorted [of xs] by (auto intro: sorted_wrt_take)
qed

text \<open>
  Claim C9. The distribution always returns, and each of its three lists (stars, forks,
  clones) has at most 8 entries, is in descending order of value and has no entry of
  value zero.
\<close>

theorem country_lists_ranked:
  "\<exists>cs. countries_of repo contributors = Inr cs
     \<and> length (c_stars cs) \<le> 8 \<and> length (c_forks cs) \<le> 8 \<and> length (c_clones cs) \<le> 8
     \<and> sorted_wrt (\<lambda>a b. val b \<le> val a) (c_stars cs)
     \<and> sorted_wrt (\<lambda>a b. val b \<le> val a) (c_forks cs)
     \<and> sorted_wrt (\<lambda>a b. val b \<le> val a) (c_clones cs)
     \<and> (\<forall>e \<in> set (c_stars cs). val e \<noteq> 0)
     \<and> (\<forall>e \<in> set (c_forks cs). val e \<noteq> 0)
     \<and> (\<forall>e \<in> set (c_clones cs). val e \<noteq> 0)"
proof -
  let ?d = "country_distribution_of repo contributors"
  obtain cs cf cc where l: "country_loop repo (sum_list (map snd ?d)) ?d ([], [], []) = Inr (cs, cf, cc)"
    "\<forall>e \<in> set cs. 0 < val e" "\<forall>e \<in> set cf. 0 < val e" "\<forall>e \<in> set cc. 0 < val e"
    using country_loop_Inr [of "[]" "[]" "[]" repo "sum_list (map snd ?d)" ?d] by auto
  have "countries_of repo contributors =
      Inr \<lparr>c_stars = take 8 (sort_desc cs), c_forks = take 8 (sort_desc cf),
           c_clones = take 8 (sort_desc cc)\<rparr>"
    using l(1) by (simp add: countries_of_def Let_def)
  then show ?thesis
    using top8 [OF l(2)] top8 [OF l(3)] top8 [OF l(4)] by auto
qed

theorem country_lists_ranked_witness:
  "\<exists>cs. countries_of
      \<lparr>stargazers_count = 1000, forks_count = 80,
       created_at = \<lparr>year = 2023, month = 1, day = 15, hour = 10, minute = 30, second = 0, microsecond = 0\<rparr>\<rparr>
      [\<lparr>login = Some ''Canadian-Dev'', contributions = Some 30\<rparr>,
       \<lparr>login = Some ''alice'', contributions = Some 50\<rparr>,
       \<lparr>login = Some ''brit'', contributions = None\<rparr>,
       \<lparr>login = None, contributions = Some 19\<rparr>] = Inr cs
     \<and> length (c_stars cs) \<le> 8 \<and> length (c_forks cs) \<le> 8 \<and> length (c_clones cs) \<le> 8
     \<and> sorted_wrt (\<lambda>a b. val b \<le> val a) (c_stars cs)
     \<and> 0 \<notin> val ` set (c_stars cs)"
  using country_lists_ranked
      [of "\<lparr>stargazers_count = 1000, forks_count = 80,
       created_at = \<lparr>year = 2023, month = 1, day = 15, hour = 10, minute = 30, second = 0, microsecond = 0\<rparr>\<rparr>"
      "[\<lparr>login = Some ''Canadian-Dev'', contributions = Some 30\<rparr>,
       \<lparr>login = Some ''alice'', contributions = Some 50\<rparr>,
       \<lparr>login = Some ''brit'', contributions = None\<rparr>,
       \<lparr>login = None, contributions = Some 19\<rparr>]"]
  by auto

section \<open>Facts about the daily window\<close>

lemma day_stars_Inr:
  "\<exists>s k'. day_stars repo today rnd sg i d k = Inr (s, k')"
proof (cases "0 < diff_days today (created_at repo)")
  case True
  then have "truediv (real_of_int (int (stargazers_count repo)))
               (real_of_int (diff_days today (created_at repo)))
             = Inr (real_of_int (int (stargazers_count repo)) / real_of_int (diff_days today (created_at repo)))"
    by (simp add: truediv_def)
  then show ?thesis using True
    unfolding day_stars_def Let_def by (simp del: of_int_of_nat_eq)
next
  case False
  then show ?thesis
    unfolding day_stars_def Let_def by simp
qed

lemma day_body_Inr:
  assumes "sub_days today i = Inr d"
  shows "\<exists>s f k'. day_body repo today rnd sg i (ds, df, k) =
     Inr (ds @ [\<lparr>date = d, dval = s, cumulative = sum_list (map dval ds) + s\<rparr>],
          df @ [\<lparr>date = d, dval = f, cumulative = sum_list (map dval df) + f\<rparr>], k')"
proof -
  obtain s k' where "day_stars repo today rnd sg i d k = Inr (s, k')"
    using day_stars_Inr by blast
  then show ?thesis
    using assms by (simp add: day_body_def Let_def truediv_def)
qed

lemma day_body_Inl:
  assumes "sub_days today i = Inl e"
  shows "day_body repo today rnd sg i (ds, df, k) = Inl e \<and> e = OverflowError"
  using assms by (auto simp: day_body_def sub_days_def Let_def split: if_splits prod.splits)

lemma sub_days_cases:
  "sub_days today i =
     (if 0 < toordinal today - i \<and> toordinal today - i \<le> MAXORDINAL
      then Inr (day_of today i) else Inl OverflowError)"
  by (simp add: sub_days_def day_of_def Let_def split: prod.splits)

lemma running_ok_snoc:
  assumes "running_ok xs" "cumulative r = sum_list (map dval xs) + dval r"
  shows "running_ok (xs @ [r])"
  unfolding running_ok_def
proof (intro allI impI)
  fix j assume j: "j < length (xs @ [r])"
  show "cumulative ((xs @ [r]) ! j) = sum_list (map dval (take (Suc j) (xs @ [r])))"
  proof (cases "j < length xs")
    case True
    then show ?thesis using assms(1) by (simp add: running_ok_def nth_append)
  next
    case False
    then have "j = length xs" using j by simp
    then show ?thesis using assms(2) by simp
  qed
qed

lemma daily_loop_result:
  assumes "daily_loop repo today rnd sg js (ds, df, k) = Inr (ds', df', k')"
    and "running_ok ds" "running_ok df"
  shows "running_ok ds' \<and> running_ok df'
     \<and> map date ds' = map date ds @ map (day_of today) js
     \<and> map date df' = map date df @ map (day_of today) js"
  using assms
proof (induction js arbitrary: ds df k)
  case Nil
  then show ?case by simp
next
  case (Cons i js)
  show ?case
  proof (cases "sub_days today i")
    case (Inl e)
    then show ?thesis using Cons.prems(1) day_body_Inl [OF Inl, of repo rnd sg ds df k] by simp
  next
    case (Inr d)
    then have dd: "d = day_of today i" by (simp add: sub_days_cases split: if_splits)
    obtain s f k1 where b: "day_body repo today rnd sg i (ds, df, k) =
       Inr (ds @ [\<lparr>date = d, dval = s, cumulative = sum_list (map dval ds) + s\<rparr>],
            df @ [\<lparr>date = d, dval = f, cumulative = sum_list (map dval df) + f\<rparr>], k1)"
      using day_body_Inr [OF Inr] by blast
    let ?ds = "ds @ [\<lparr>date = d, dval = s, cumulative = sum_list (map dval ds) + s\<rparr>]"
    let ?df = "df @ [\<lparr>date = d, dval = f, cumulative = sum_list (map dval df) + f\<rparr>]"
    have r1: "running_ok ?ds" by (rule running_ok_snoc [OF Cons.prems(2)]) simp
    have r2: "running_ok ?df" by (rule running_ok_snoc [OF Cons.prems(3)]) simp
    have "daily_loop repo today rnd sg js (?ds, ?df, k1) = Inr (ds', df', k')"
      using Cons.prems(1) b by simp
    from Cons.IH [OF this r1 r2] show ?thesis by (simp add: dd)
  qed
qed

lemma daily_loop_total:
  assumes "\<forall>i \<in> set js. 0 < toordinal today - i \<and> toordinal today - i \<le> MAXORDINAL"
  shows "\<exists>ds' df' k'. daily_loop repo today rnd sg js (ds, df, k) = Inr (ds', df', k')"
  using assms
proof (induction js arbitrary: ds df k)
  case Nil
  then show ?case by simp
next
  case (Cons i js)
  have "sub_days today i = Inr (day_of today i)" using Cons.prems by (simp add: sub_days_cases)
  from day_body_Inr [OF this, of repo rnd sg ds df k] obtain st where
    "day_body repo today rnd sg i (ds, df, k) = Inr st" by blast
  moreover obtain a b c where "st = (a, b, c)" by (cases st)
  ultimately show ?case using Cons.IH [of a b c] Cons.prems by simp
qed

lemma daily_loop_error:
  "daily_loop repo today rnd sg js st = Inl e \<Longrightarrow> e = OverflowError"
proof (induction js arbitrary: st)
  case Nil
  then show ?case by simp
next
  case (Cons i js)
  obtain ds df k where st: "st = (ds, df, k)" by (cases st)
  show ?case
  proof (cases "sub_days today i")
    case (Inl e')
    then show ?thesis using Cons.prems day_body_Inl [OF Inl, of repo rnd sg ds df k] by (simp add: st)
  next
    case (Inr d)
    from day_body_Inr [OF Inr, of repo rnd sg ds df k] obtain st' where
      "day_body repo today rnd sg i (ds, df, k) = Inr st'" by blast
    then show ?thesis using Cons.prems Cons.IH [of st'] by (simp add: st)
  qed
qed



lemma range_30_down_length [simp]: "length range_30_down = 31"
  by (simp add: range_30_down_def)


lemma range_30_down_set: "i \<in> set range_30_down \<Longrightarrow> 0 \<le> i \<and> i \<le> 30"
  by (auto simp: range_30_down_def)

lemma running_ok_Nil [simp]: "running_ok []"
  by (simp add: running_ok_def)

lemma generate_daily_total:
  assumes "valid_datetime today" "30 < toordinal today"
  shows "\<exists>dd k'. generate_daily_analytics repo today rnd k sg = Inr (dd, k')
     \<and> map date (d_stars dd) = map (day_of today) range_30_down
     \<and> map date (d_forks dd) = map (day_of today) range_30_down
     \<and> running_ok (d_stars dd) \<and> running_ok (d_forks dd)"
proof -
  have ub: "toordinal today \<le> MAXORDINAL"
    using assms(1) ymd2ord_bounds(2) by (simp add: valid_datetime_def toordinal_def)
  have r: "\<forall>i \<in> set range_30_down. 0 < toordinal today - i \<and> toordinal today - i \<le> MAXORDINAL"
    using range_30_down_set assms(2) ub by fastforce
  obtain ds df k' where l: "daily_loop repo today rnd sg range_30_down ([], [], k) = Inr (ds, df, k')"
    using daily_loop_total [OF r] by blast
  from daily_loop_result [OF l] have
    "running_ok ds \<and> running_ok df \<and> map date ds = map (day_of today) range_30_down
      \<and> map date df = map (day_of today) range_30_down" by simp
  then show ?thesis using l by (simp add: generate_daily_analytics_def)
qed

section \<open>Properties of the daily window\<close>



lemma running_ok_step:
  assumes "running_ok xs" "j < length xs"
  shows "cumulative (xs ! j) = sum_list (map dval (take (Suc j) xs))"
    and "cumulative (xs ! j) = (if j = 0 then 0 else cumulative (xs ! (j - 1))) + dval (xs ! j)"
proof -
  show a: "cumulative (xs ! j) = sum_list (map dval (take (Suc j) xs))"
    using assms by (simp add: running_ok_def)
  have t: "take (Suc j) xs = take j xs @ [xs ! j]"
    using assms(2) by (simp add: take_Suc_conv_app_nth)
  show "cumulative (xs ! j) = (if j = 0 then 0 else cumulative (xs ! (j - 1))) + dval (xs ! j)"
  proof (cases j)
    case 0
    then show ?thesis using a t by simp
  next
    case (Suc i)
    have "cumulative (xs ! i) = sum_list (map dval (take (Suc i) xs))"
      using assms Suc by (simp add: running_ok_def)
    then show ?thesis using a t Suc by simp
  qed
qed

lemma generate_daily_running:
  assumes "generate_daily_analytics repo today rnd k sg = Inr (dd, k')"
  shows "running_ok (d_stars dd) \<and> running_ok (d_forks dd)"
proof -
  obtain ds df k1 where l: "daily_loop repo today rnd sg range_30_down ([], [], k) = Inr (ds, df, k1)"
    and d: "dd = \<lparr>d_stars = ds, d_forks = df\<rparr>"
    using assms
    by (auto simp: generate_daily_analytics_def bind_err_def split: sum.splits prod.splits)
  from daily_loop_result [OF l] show ?thesis by (simp add: d)
qed

lemma generate_daily_error:
  assumes "generate_daily_analytics repo today rnd k sg = Inl e"
  shows "e = OverflowError"
  using assms daily_loop_error
  by (fastforce simp: generate_daily_analytics_def bind_err_def split: sum.splits prod.splits)

lemma monthly_loop_error:
  "monthly_loop repo now rnd sg c cs cf k h = Inl e \<Longrightarrow> e = ValueError"
proof (induction repo now rnd sg c cs cf k h rule: monthly_loop.induct)
  case (1 repo now rnd sg c cs cf k h)
  obtain item k' where body: "month_body repo now rnd sg c cs cf k =
      Inr (item, cs + stars_gained item, cf + forks_gained item, k')"
    using month_body_Inr by blast
  show ?case
  proof (cases "dt_le c now")
    case False
    then show ?thesis using "1.prems" by (subst (asm) monthly_loop.simps) simp
  next
    case True
    show ?thesis
    proof (cases "next_month c")
      case (Inl e')
      then have "e' = ValueError"
        by (auto simp: next_month_def replace_date_def split: if_splits)
      then show ?thesis using "1.prems" True body Inl
        by (subst (asm) monthly_loop.simps) simp
    next
      case (Inr c')
      have "monthly_loop repo now rnd sg c' (cs + stars_gained item) (cf + forks_gained item) k'
              (h @ [item]) = Inl e"
        using "1.prems" True body Inr by (subst (asm) monthly_loop.simps) simp
      then show ?thesis using "1.IH" [OF True body refl refl refl Inr] by simp
    qed
  qed
qed

lemma monthly_history_of_error:
  assumes "monthly_history_of repo now rnd k sg = Inl e"
  shows "e = ValueError"
proof (cases "replace_date (created_at repo) (year (created_at repo)) (month (created_at repo)) 1")
  case (Inl e')
  then show ?thesis using assms
    by (auto simp: monthly_history_of_def Let_def replace_date_def split: if_splits)
next
  case (Inr c)
  show ?thesis
  proof (cases "monthly_loop repo now rnd sg c 0 0 k []")
    case (Inl e')
    then show ?thesis using assms Inr monthly_loop_error [OF Inl]
      by (simp add: monthly_history_of_def Let_def)
  next
    case (Inr hk)
    obtain h k' where hk: "hk = (h, k')" by (cases hk)
    obtain h' where "final_adjustment repo h = Inr h'" using final_adjustment_Inr by blast
    then show ?thesis using assms \<open>replace_date _ _ _ _ = Inr c\<close> Inr hk
      by (simp add: monthly_history_of_def Let_def)
  qed
qed

lemma countries_of_Inr: "\<exists>cs. countries_of repo contributors = Inr cs"
proof -
  let ?d = "country_distribution_of repo contributors"
  obtain cs cf cc where "country_loop repo (sum_list (map snd ?d)) ?d ([], [], []) = Inr (cs, cf, cc)"
    using country_loop_Inr [of "[]" "[]" "[]" repo "sum_list (map snd ?d)" ?d] by auto
  then show ?thesis by (simp add: countries_of_def Let_def)
qed

section \<open>Properties of the whole engine\<close>

text \<open>
  Claim C3. In every record of every returned monthly history the total after the month is
  the total before it plus the month's gain, for stars and for forks; and in every record
  of every returned daily series the running value is the sum of the daily values from the
  start of the window through that record, which is the previous record's running value
  plus the record's own value.
\<close>

theorem cumulative_consistency:
  "(monthly_history_of repo now rnd k sg = Inr (h, k') \<longrightarrow>
      (\<forall>r \<in> set h. total_stars_after r = total_stars_before r + stars_gained r \<and>
                      total_forks_after r = total_forks_before r + forks_gained r))
   \<and> (generate_daily_analytics repo today rnd k2 sg2 = Inr (dd, k2') \<longrightarrow>
        (\<forall>j < length (d_stars dd).
            cumulative (d_stars dd ! j) = sum_list (map dval (take (Suc j) (d_stars dd))) \<and>
            cumulative (d_stars dd ! j)
              = (if j = 0 then 0 else cumulative (d_stars dd ! (j - 1))) + dval (d_stars dd ! j))
        \<and> (\<forall>j < length (d_forks dd).
            cumulative (d_forks dd ! j) = sum_list (map dval (take (Suc j) (d_forks dd))) \<and>
            cumulative (d_forks dd ! j)
              = (if j = 0 then 0 else cumulative (d_forks dd ! (j - 1))) + dval (d_forks dd ! j)))"
proof (intro conjI impI)
  assume "monthly_history_of repo now rnd k sg = Inr (h, k')"
  then obtain raw where "final_adjustment repo raw = Inr h"
    using monthly_history_of_final by blast
  then show "\<forall>r \<in> set h. total_stars_after r = total_stars_before r + stars_gained r \<and>
                      total_forks_after r = total_forks_before r + forks_gained r"
    using final_adjustment_Inr [of repo raw] by auto
next
  assume a: "generate_daily_analytics repo today rnd k2 sg2 = Inr (dd, k2')"
  show "\<forall>j < length (d_stars dd).
            cumulative (d_stars dd ! j) = sum_list (map dval (take (Suc j) (d_stars dd))) \<and>
            cumulative (d_stars dd ! j)
              = (if j = 0 then 0 else cumulative (d_stars dd ! (j - 1))) + dval (d_stars dd ! j)"
    using generate_daily_running [OF a] running_ok_step [of "d_stars dd"] by blast
next
  assume a: "generate_daily_analytics repo today rnd k2 sg2 = Inr (dd, k2')"
  show "\<forall>j < length (d_forks dd).
            cumulative (d_forks dd ! j) = sum_list (map dval (take (Suc j) (d_forks dd))) \<and>
            cumulative (d_forks dd ! j)
              = (if j = 0 then 0 else cumulative (d_forks dd ! (j - 1))) + dval (d_forks dd ! j)"
    using generate_daily_running [OF a] running_ok_step [of "d_forks dd"] by blast
qed

theorem cumulative_consistency_witness:
  "(\<exists>h k'. monthly_history_of
       \<lparr>stargazers_count = 100, forks_count = 10,
       created_at = \<lparr>year = 2023, month = 1, day = 15, hour = 10, minute = 30, second = 0, microsecond = 0\<rparr>\<rparr>
       \<lparr>year = 2023, month = 2, day = 10, hour = 8, minute = 0, second = 0, microsecond = 0\<rparr>
       (\<lambda>_. 9/16) 0 [] = Inr (h, k') \<and> h \<noteq> []
       \<and> total_stars_after (last h) = total_stars_before (last h) + stars_gained (last h))
   \<and> (\<exists>dd k'. generate_daily_analytics
       \<lparr>stargazers_count = 100, forks_count = 10,
       created_at = \<lparr>year = 2023, month = 1, day = 15, hour = 10, minute = 30, second = 0, microsecond = 0\<rparr>\<rparr>
       \<lparr>year = 2024, month = 3, day = 15, hour = 12, minute = 0, second = 0, microsecond = 0\<rparr>
       (\<lambda>_. 9/16) 0 [] = Inr (dd, k') \<and> length (d_stars dd) = 31
       \<and> cumulative (d_stars dd ! 30) = cumulative (d_stars dd ! 29) + dval (d_stars dd ! 30))"
proof -
  let ?R = "\<lparr>stargazers_count = 100, forks_count = 10,
       created_at = \<lparr>year = 2023, month = 1, day = 15, hour = 10, minute = 30, second = 0, microsecond = 0\<rparr>\<rparr>"
  let ?N = "\<lparr>year = 2023, month = 2, day = 10, hour = 8, minute = 0, second = 0, microsecond = 0\<rparr>"
  let ?T = "\<lparr>year = 2024, month = 3, day = 15, hour = 12, minute = 0, second = 0, microsecond = 0\<rparr>"
  have v: "valid_datetime (created_at ?R)" "valid_datetime ?N" "valid_datetime ?T"
    by code_simp+
  have le: "dt_le (created_at ?R) ?N" by code_simp
  have o: "30 < toordinal ?T" by code_simp
  obtain h k' where h: "monthly_history_of ?R ?N (\<lambda>_. 9/16) 0 [] = Inr (h, k')" "h \<noteq> []"
    using monthly_history_of_total [OF v(1,2), of "\<lambda>_. 9/16" 0 "[]"] le by auto
  have 1: "total_stars_after (last h) = total_stars_before (last h) + stars_gained (last h)"
    using cumulative_consistency [of ?R ?N "\<lambda>_. 9/16" 0 "[]" h k'] h by simp
  obtain dd k2 where d: "generate_daily_analytics ?R ?T (\<lambda>_. 9/16) 0 [] = Inr (dd, k2)"
      "map date (d_stars dd) = map (day_of ?T) range_30_down"
    using generate_daily_total [OF v(3) o, of ?R "\<lambda>_. 9/16" 0 "[]"] by blast
  have len: "length (d_stars dd) = 31" using d(2) by (metis length_map range_30_down_length)
  from cumulative_consistency [of ?R ?N "\<lambda>_. 9/16" 0 "[]" h k' ?T 0 "[]" dd k2] d(1)
  have every: "\<forall>j < length (d_stars dd). cumulative (d_stars dd ! j)
      = (if j = 0 then 0 else cumulative (d_stars dd ! (j - 1))) + dval (d_stars dd ! j)"
    by blast
  have 2: "cumulative (d_stars dd ! 30) = cumulative (d_stars dd ! 29) + dval (d_stars dd ! 30)"
    using every [rule_format, of 30] len by simp
  show ?thesis using h 1 d(1) len 2 by blast
qed

text \<open>
  Claim C10. No call of the engine raises \<open>ZeroDivisionError\<close>, whatever the totals and
  the age of the repository: every division by a computed value is guarded. For valid
  timestamps (current year below 9999, current day more than 30 days after the first day
  of the calendar) the call returns a result.
\<close>

theorem no_division_fault:
  "generate_real_analytics_data repo sg contributors now today rnd \<noteq> Inl ZeroDivisionError
   \<and> (valid_datetime (created_at repo) \<and> valid_datetime now \<and> year now < 9999
        \<and> valid_datetime today \<and> 30 < toordinal today
      \<longrightarrow> (\<exists>b. generate_real_analytics_data repo sg contributors now today rnd = Inr b))"
proof (intro conjI impI)
  obtain cs where c: "countries_of repo contributors = Inr cs" using countries_of_Inr by blast
  show "generate_real_analytics_data repo sg contributors now today rnd \<noteq> Inl ZeroDivisionError"
  proof (cases "monthly_history_of repo now rnd 0 sg")
    case (Inl e)
    then show ?thesis using monthly_history_of_error [OF Inl]
      by (simp add: generate_real_analytics_data_def)
  next
    case (Inr hk)
    obtain h k where hk: "hk = (h, k)" by (cases hk)
    show ?thesis
    proof (cases "generate_daily_analytics repo today rnd k sg")
      case (Inl e)
      then show ?thesis using generate_daily_error [OF Inl] Inr hk c
        by (simp add: generate_real_analytics_data_def)
    next
      case (Inr dk)
      then show ?thesis using \<open>monthly_history_of repo now rnd 0 sg = Inr hk\<close> hk c
        by (simp add: generate_real_analytics_data_def split: prod.splits)
    qed
  qed
next
  assume a: "valid_datetime (created_at repo) \<and> valid_datetime now \<and> year now < 9999
        \<and> valid_datetime today \<and> 30 < toordinal today"
  obtain cs where c: "countries_of repo contributors = Inr cs" using countries_of_Inr by blast
  obtain h k where h: "monthly_history_of repo now rnd 0 sg = Inr (h, k)"
    using monthly_history_of_total [of repo now rnd 0 sg] a by blast
  obtain dd k' where d: "generate_daily_analytics repo today rnd k sg = Inr (dd, k')"
    using generate_daily_total [of today repo rnd k sg] a by blast
  show "\<exists>b. generate_real_analytics_data repo sg contributors now today rnd = Inr b"
    using c h d by (simp add: generate_real_analytics_data_def)
qed

theorem no_division_fault_witness:
  "generate_real_analytics_data
       \<lparr>stargazers_count = 0, forks_count = 0,
       created_at = \<lparr>year = 2024, month = 3, day = 15, hour = 12, minute = 0, second = 0, microsecond = 0\<rparr>\<rparr>
       [] []
       \<lparr>year = 2024, month = 3, day = 15, hour = 12, minute = 0, second = 0, microsecond = 0\<rparr>
       \<lparr>year = 2024, month = 3, day = 15, hour = 12, minute = 0, second = 0, microsecond = 0\<rparr>
       (\<lambda>_. 0) \<noteq> Inl ZeroDivisionError
   \<and> (\<exists>b. generate_real_analytics_data
       \<lparr>stargazers_count = 0, forks_count = 0,
       created_at = \<lparr>year = 2024, month = 3, day = 15, hour = 12, minute = 0, second = 0, microsecond = 0\<rparr>\<rparr>
       [] []
       \<lparr>year = 2024, month = 3, day = 15, hour = 12, minute = 0, second = 0, microsecond = 0\<rparr>
       \<lparr>year = 2024, month = 3, day = 15, hour = 12, minute = 0, second = 0, microsecond = 0\<rparr>
       (\<lambda>_. 0) = Inr b)"
proof -
  let ?T = "\<lparr>year = 2024, month = 3, day = 15, hour = 12, minute = 0, second = 0, microsecond = 0\<rparr>"
  let ?R = "\<lparr>stargazers_count = 0, forks_count = 0,
       created_at = \<lparr>year = 2024, month = 3, day = 15, hour = 12, minute = 0, second = 0, microsecond = 0\<rparr>\<rparr>"
  have v: "valid_datetime ?T" by code_simp
  have o: "30 < toordinal ?T" by code_simp
  have "valid_datetime (created_at ?R) \<and> valid_datetime ?T \<and> year ?T < 9999
        \<and> valid_datetime ?T \<and> 30 < toordinal ?T"
    using v o by simp
  then show ?thesis
    using no_division_fault [of ?R "[]" "[]" ?T ?T "\<lambda>_. 0"] by blast
qed

text \<open>
  Claim C4, on the code. \<open>created_date.replace(day=1)\<close> keeps the creation's time of day,
  so on the first day of a month, before that time of day, the loop condition
  \<open>current_month <= current_date\<close> leaves the current month out: for a repository created
  2023-01-15 10:30 and the current date 2023-04-01 08:00 the history has 3 records
  (January to March), while the months from January to April are 4.
\<close>

theorem monthly_history_first_day_of_month:
  "\<exists>h k'. monthly_history_of
       \<lparr>stargazers_count = 100, forks_count = 10,
       created_at = \<lparr>year = 2023, month = 1, day = 15, hour = 10, minute = 30, second = 0, microsecond = 0\<rparr>\<rparr>
       \<lparr>year = 2023, month = 4, day = 1, hour = 8, minute = 0, second = 0, microsecond = 0\<rparr>
       (\<lambda>_. 1/2) 0 [] = Inr (h, k')
     \<and> length h = 3"
proof -
  let ?R = "\<lparr>stargazers_count = 100, forks_count = 10,
       created_at = \<lparr>year = 2023, month = 1, day = 15, hour = 10, minute = 30, second = 0, microsecond = 0\<rparr>\<rparr>"
  let ?N = "\<lparr>year = 2023, month = 4, day = 1, hour = 8, minute = 0, second = 0, microsecond = 0\<rparr>"
  have v: "valid_datetime (created_at ?R)" "valid_datetime ?N" by code_simp+
  have y: "year ?N < 9999" by simp
  obtain h k' where h: "monthly_history_of ?R ?N (\<lambda>_. 1/2) 0 [] = Inr (h, k')"
    "int (length h) = max 0 (12 * year ?N + month ?N
            - (12 * year (created_at ?R) + month (created_at ?R))
            + (if first_of_month_key (created_at ?R) \<le> rest_key ?N then 1 else 0))"
    using monthly_history_of_total [OF v y, of "\<lambda>_. 1/2" 0 "[]"] by blast
  have "int (length h) = 3" using h(2) by (simp add: first_of_month_key_def rest_key_def)
  then show ?thesis using h(1) by auto
qed

end
